theory Spec2Isabelle
  imports Main "HOL-Library.Sublist" "HOL-Library.AList" "HOL-Library.Char_ord"
    "HOL-Library.List_Lexorder"
begin

section \<open>Python strings\<close>

text \<open>
  Paths and names are Python \<open>str\<close> values, modelled as \<open>string\<close>.  The operations
  of \<open>str\<close> and \<open>re\<close> that \<open>hdf5.py\<close> uses are written out here.
\<close>

text \<open>\<open>s.startswith(p)\<close> and \<open>s.endswith(p)\<close>.\<close>

definition startswith :: "string \<Rightarrow> string \<Rightarrow> bool" where
  "startswith s p = prefix p s"

definition endswith :: "string \<Rightarrow> string \<Rightarrow> bool" where
  "endswith s p = suffix p s"

text \<open>\<open>p in s\<close> for two strings: \<open>p\<close> occurs in \<open>s\<close> as a contiguous substring.\<close>

fun str_contains :: "string \<Rightarrow> string \<Rightarrow> bool" where
  "str_contains [] p = (p = [])"
| "str_contains (c # cs) p = (prefix p (c # cs) \<or> str_contains cs p)"

text \<open>\<open>s.split(c)\<close> with an explicit one-character separator: every occurrence
  splits, and the result is never empty.\<close>

fun str_split :: "char \<Rightarrow> string \<Rightarrow> string list" where
  "str_split c [] = [[]]"
| "str_split c (x # xs) =
     (if x = c then [] # str_split c xs
      else (case str_split c xs of
              [] \<Rightarrow> [[x]]
            | w # ws \<Rightarrow> (x # w) # ws))"

text \<open>\<open>sep.join(xs)\<close>.\<close>

fun str_join :: "string \<Rightarrow> string list \<Rightarrow> string" where
  "str_join sep [] = []"
| "str_join sep [x] = x"
| "str_join sep (x # y # ys) = x @ sep @ str_join sep (y # ys)"

definition is_digit :: "char \<Rightarrow> bool" where
  "is_digit c = (c \<in> set ''0123456789'')"

definition newline :: char where
  "newline = CHR 0x0A"

text \<open>
  \<open>re.match('/photon_data[0-9]*(.*)', path)\<close>: \<open>None\<close> when \<open>path\<close> does not start
  with \<open>/photon_data\<close>; otherwise the match object, of which only \<open>group(1)\<close> is used.
  The greedy \<open>[0-9]*\<close> takes every digit that follows, and \<open>(.*)\<close> takes the rest
  up to the first newline, which \<open>.\<close> does not match.
\<close>

definition re_match_photon_data :: "string \<Rightarrow> string option" where
  "re_match_photon_data path =
     (if prefix ''/photon_data'' path
      then Some (takeWhile (\<lambda>c. c \<noteq> newline)
                  (dropWhile is_digit (drop (length ''/photon_data'') path)))
      else None)"

section \<open>Errors\<close>

text \<open>
  The messages of \<open>Invalid_PhotonHDF5\<close> and of the printed warnings, one constructor
  for each format string of the source, carrying the values formatted into it.
\<close>

text \<open>
  Python values that the code handles: a \<open>str\<close>, a \<open>bytes\<close> value, a number.  On
  Python 3 the two kinds of string never compare equal.
\<close>

datatype pyval = VStr string | VBytes string | VNum int

datatype issue =
    Missing_in string string  \<comment> \<open>\<open>Missing "%s" in "%s".\<close>\<close>
  | Unknown_field string  \<comment> \<open>\<open>Unknown field "%s". Custom fields must be ...\<close>\<close>
  | Missing_photon_data  \<comment> \<open>\<open>Invalid Photon-HDF5: missing "photon_data" group.\<close>\<close>
  | Missing_setup_group  \<comment> \<open>\<open>Invalid Photon-HDF5: Missing /setup group.\<close>\<close>
  | Missing_setup_field string  \<comment> \<open>\<open>Missing "/setup/%s".\<close>\<close>
  | Missing_measurement_specs  \<comment> \<open>\<open>Missing "measurement_specs".\<close>\<close>
  | Missing_measurement_type  \<comment> \<open>\<open>Missing "measurement_type"\<close>\<close>
  | Unknown_measurement_type pyval  \<comment> \<open>\<open>Unkwnown measurement type "%s"\<close>\<close>
  | Missing_for_mtype string string pyval
      \<comment> \<open>\<open>Missing "%s" in "%s". This field is mandatory for "%s" data.\<close>\<close>

datatype error =
    Invalid_PhotonHDF5 issue
  | AssertionError
  | IndexError
  | KeyError string
  | AttributeError
  | NoSuchNodeError string
  | TypeError
  | RecursionError
  | IOError

section \<open>Path analysis\<close>

text \<open>
  \<open>_analyze_path(name, prefix_list)\<close>.  \<open>prefix_list\<close> may be \<open>None\<close>.  Indexing an
  empty string raises \<open>IndexError\<close>; a failed \<open>assert\<close> raises \<open>AssertionError\<close>.
  The result is \<open>(meta_path, is_phdata, is_user)\<close>.
\<close>

definition full_path_of :: "string \<Rightarrow> string list option \<Rightarrow> error + string" where
  "full_path_of name prefix_list =
     (if name = [] then Inl IndexError
      else if \<not> (hd name \<noteq> CHR ''/'' \<and> last name \<noteq> CHR ''/'') then Inl AssertionError
      else (case prefix_list of
              None \<Rightarrow> Inr (''/'' @ name)
            | Some pl \<Rightarrow>
                if length pl > 0 then
                  (let pre = str_join ''/'' pl in
                   if pre = [] then Inl IndexError
                   else if \<not> (hd pre \<noteq> CHR ''/'' \<and> last pre \<noteq> CHR ''/'')
                     then Inl AssertionError
                   else Inr (''/'' @ pre @ ''/'' @ name))
                else Inr (''/'' @ name)))"

definition analyze_path ::
  "string \<Rightarrow> string list option \<Rightarrow> error + (string \<times> bool \<times> bool)" where
  "analyze_path name prefix_list =
     (case full_path_of name prefix_list of
        Inl e \<Rightarrow> Inl e
      | Inr full_path \<Rightarrow>
          (let chunks = str_split CHR ''/'' full_path in
           if \<not> (length chunks \<ge> 2) then Inl AssertionError
           else if \<not> (name = last chunks) then Inl AssertionError
           else
             (let is_user = (''user'' \<in> set chunks) in
              if startswith full_path ''/photon_data'' then
                (let is_phdata = (length chunks = 3 \<and> \<not> endswith name ''_specs'') in
                 case re_match_photon_data full_path of
                   None \<Rightarrow> Inl AttributeError
                 | Some g1 \<Rightarrow> Inr (''/photon_data'' @ g1, is_phdata, is_user))
              else Inr (full_path, False, is_user))))"

section \<open>The PyTables tree\<close>

text \<open>
  The validator reads an open PyTables file.  A node is a group with named children or
  a leaf, and a leaf is given by the scalar value that its \<open>read()\<close> returns.  For a
  stored string that value is a \<open>bytes\<close> value on Python 3, which is also what the
  writer of this module stores (\<open>obj.encode()\<close>, line 77); a leaf whose \<open>read()\<close>
  returns a \<open>str\<close> is a node of another kind of source, or of Python 2.  The
  Python objects the validator handles are nodes, each with its \<open>_v_pathname\<close>, and,
  in one branch, plain strings.
\<close>

datatype h5tree = Group "(string \<times> h5tree) list" | Leaf pyval

datatype pyobj = Node string h5tree | Str string

text \<open>PyTables' \<open>join_path\<close>: the path of a child.\<close>

definition join_path :: "string \<Rightarrow> string \<Rightarrow> string" where
  "join_path parent name =
     (if parent = ''/'' then ''/'' @ name else parent @ ''/'' @ name)"

text \<open>\<open>name in obj\<close>: a child of that name for a group, a substring for a string.
  A leaf has no \<open>__contains__\<close>; the test iterates over it, and on a scalar leaf it is
  false.\<close>

fun py_in :: "string \<Rightarrow> pyobj \<Rightarrow> error + bool" where
  "py_in name (Node p (Group cs)) = Inr (name \<in> set (map fst cs))"
| "py_in name (Node p (Leaf v)) = Inr False"
| "py_in name (Str s) = Inr (str_contains s name)"

text \<open>\<open>obj._v_pathname\<close>; a string has no such attribute.\<close>

fun v_pathname :: "pyobj \<Rightarrow> error + string" where
  "v_pathname (Node p t) = Inr p"
| "v_pathname (Str s) = Inl AttributeError"

text \<open>\<open>obj.name\<close>, PyTables' natural naming: the child of a group, which raises
  \<open>NoSuchNodeError\<close> when there is none.\<close>

fun getattr :: "pyobj \<Rightarrow> string \<Rightarrow> error + pyobj" where
  "getattr (Node p (Group cs)) name =
     (case map_of cs name of
        None \<Rightarrow> Inl (NoSuchNodeError name)
      | Some t \<Rightarrow> Inr (Node (join_path p name) t))"
| "getattr (Node p (Leaf v)) name = Inl AttributeError"
| "getattr (Str s) name = Inl AttributeError"

text \<open>\<open>obj.read()\<close>: the value of a leaf.  On a group, \<open>read\<close> is looked up as a
  child, and a node is not callable.\<close>

fun read :: "pyobj \<Rightarrow> error + pyval" where
  "read (Node p (Leaf v)) = Inr v"
| "read (Node p (Group cs)) =
     (case map_of cs ''read'' of
        None \<Rightarrow> Inl (NoSuchNodeError ''read'')
      | Some t \<Rightarrow> Inl TypeError)"
| "read (Str s) = Inl AttributeError"

text \<open>\<open>group._v_groups.keys()\<close>: the names of the children that are groups.\<close>

fun is_group :: "h5tree \<Rightarrow> bool" where
  "is_group (Group cs) = True"
| "is_group (Leaf v) = False"

fun v_groups_keys :: "pyobj \<Rightarrow> error + string list" where
  "v_groups_keys (Node p (Group cs)) = Inr (map fst (filter (\<lambda>(n, t). is_group t) cs))"
| "v_groups_keys (Node p (Leaf v)) = Inl AttributeError"
| "v_groups_keys (Str s) = Inl AttributeError"

text \<open>\<open>group._f_iter_nodes()\<close>: the children, sorted by name.\<close>

fun f_iter_nodes :: "pyobj \<Rightarrow> error + pyobj list" where
  "f_iter_nodes (Node p (Group cs)) =
     Inr (map (\<lambda>(n, t). Node (join_path p n) t) (sort_key fst cs))"
| "f_iter_nodes (Node p (Leaf v)) = Inl AttributeError"
| "f_iter_nodes (Str s) = Inl AttributeError"

text \<open>
  \<open>group._f_walk_groups()\<close>.  PyTables keeps a stack of groups: it yields the group
  itself, then pops a group, pushes and yields each of its child groups in the order of
  their names, and goes on until the stack is empty.  So all the child groups of a
  group come before the descendants of any of them, and the last child is descended
  from first.  The stack is written top first.
\<close>

fun child_groups :: "string \<Rightarrow> h5tree \<Rightarrow> (string \<times> h5tree) list" where
  "child_groups p (Group cs) =
     map (\<lambda>(n, t). (join_path p n, t)) (sort_key fst (filter (\<lambda>(n, t). is_group t) cs))"
| "child_groups p (Leaf v) = []"

function walk_stack :: "(string \<times> h5tree) list \<Rightarrow> pyobj list" where
  "walk_stack [] = []"
| "walk_stack ((p, t) # stack) =
     map (\<lambda>(q, g). Node q g) (child_groups p t) @
     walk_stack (rev (child_groups p t) @ stack)"
  by pat_completeness auto
termination
proof (relation "measure (\<lambda>stack. sum_list (map (\<lambda>a. Suc (size (snd a))) stack))")
  show "wf (measure (\<lambda>stack. sum_list (map (\<lambda>a. Suc (size (snd a))) stack)))"
    by simp
next
  fix p :: string and t :: h5tree and stack :: "(string \<times> h5tree) list"
  have ins: "sum_list (map (\<lambda>a. Suc (size (snd a))) (insort_key fst x xs)) =
      Suc (size (snd x)) + sum_list (map (\<lambda>a. Suc (size (snd a))) xs)"
    for x :: "string \<times> h5tree" and xs
    by (induction xs) simp_all
  have srt: "sum_list (map (\<lambda>a. Suc (size (snd a))) (sort_key fst xs)) =
      sum_list (map (\<lambda>a. Suc (size (snd a))) xs)"
    for xs :: "(string \<times> h5tree) list"
    by (induction xs) (simp_all add: ins)
  have flt: "sum_list (map (\<lambda>a. Suc (size (snd a))) (filter P xs)) \<le>
      size_list (size_prod (\<lambda>n. 0) size) xs"
    for P and xs :: "(string \<times> h5tree) list"
    by (induction xs) auto
  have "sum_list (map (\<lambda>a. Suc (size (snd a))) (child_groups p t)) < Suc (size t)"
  proof (cases t)
    case (Group cs)
    have "sum_list (map (\<lambda>a. Suc (size (snd a))) (child_groups p (Group cs))) =
        sum_list (map (\<lambda>a. Suc (size (snd a)))
          (sort_key fst (filter (\<lambda>(n, t). is_group t) cs)))"
      by (simp add: comp_def case_prod_beta)
    also have "\<dots> \<le> size_list (size_prod (\<lambda>n. 0) size) cs"
      by (simp only: srt flt)
    finally show ?thesis using Group by simp
  next
    case (Leaf v)
    then show ?thesis by simp
  qed
  then show "(rev (child_groups p t) @ stack, (p, t) # stack)
      \<in> measure (\<lambda>stack. sum_list (map (\<lambda>a. Suc (size (snd a))) stack))"
    by (simp add: rev_map [symmetric] sum_list_rev del: rev_map)
qed

fun f_walk_groups :: "pyobj \<Rightarrow> error + pyobj list" where
  "f_walk_groups (Node p (Group cs)) =
     Inr (Node p (Group cs) # walk_stack [(p, Group cs)])"
| "f_walk_groups (Node p (Leaf v)) = Inl AttributeError"
| "f_walk_groups (Str s) = Inl AttributeError"

section \<open>Runs: printed warnings and an outcome\<close>

text \<open>
  A function prints or writes and then returns or raises.  Its run is the list of what
  it printed or wrote, in order, and the outcome.  What came before an exception stays.
  For the validator the list holds the warnings printed.
\<close>

type_synonym ('w, 'a) log_run = "'w list \<times> (error + 'a)"

type_synonym 'a run = "(issue, 'a) log_run"

definition ret :: "'a \<Rightarrow> ('w, 'a) log_run" where
  "ret x = ([], Inr x)"

definition raise :: "error \<Rightarrow> ('w, 'a) log_run" where
  "raise e = ([], Inl e)"

definition lift :: "error + 'a \<Rightarrow> ('w, 'a) log_run" where
  "lift r = ([], r)"

definition emit :: "'w \<Rightarrow> ('w, unit) log_run" where
  "emit x = ([x], Inr ())"

definition print_warning :: "issue \<Rightarrow> unit run" where
  "print_warning msg = emit msg"

definition bind_run :: "('w, 'a) log_run \<Rightarrow> ('a \<Rightarrow> ('w, 'b) log_run) \<Rightarrow> ('w, 'b) log_run" where
  "bind_run m f =
     (case m of
        (w, Inl e) \<Rightarrow> (w, Inl e)
      | (w, Inr x) \<Rightarrow> (case f x of (w', r) \<Rightarrow> (w @ w', r)))"

definition then_run :: "('w, unit) log_run \<Rightarrow> ('w, 'b) log_run \<Rightarrow> ('w, 'b) log_run" where
  "then_run m n = bind_run m (\<lambda>_. n)"

section \<open>The validator\<close>

text \<open>
  The table \<open>official_fields_descr\<close> is imported from \<open>metadata.py\<close>; the functions
  that read it take it as the parameter \<open>official\<close>.
\<close>

type_synonym descr_table = "string \<rightharpoonup> string"

text \<open>\<open>_raise_invalid_file(msg, strict=True)\<close>.\<close>

definition raise_invalid_file :: "issue \<Rightarrow> bool \<Rightarrow> unit run" where
  "raise_invalid_file msg strict =
     (if strict then raise (Invalid_PhotonHDF5 msg) else print_warning msg)"

text \<open>\<open>_check_has_field(name, group, strict=True)\<close>: the call of
  \<open>_raise_invalid_file\<close> passes the message only, so its \<open>strict\<close> is the default
  \<open>True\<close>.\<close>

definition check_has_field :: "string \<Rightarrow> pyobj \<Rightarrow> bool \<Rightarrow> unit run" where
  "check_has_field name grp strict =
     bind_run (lift (py_in name grp)) (\<lambda>present.
       if \<not> present then
         bind_run (lift (v_pathname grp)) (\<lambda>path.
           raise_invalid_file (Missing_in name path) True)
       else ret ())"

text \<open>\<open>_check_path(path, strict=True)\<close>.\<close>

definition check_path :: "descr_table \<Rightarrow> string \<Rightarrow> bool \<Rightarrow> unit run" where
  "check_path official path strict =
     (if str_contains path ''/user'' then ret ()
      else
        bind_run
          (if startswith path ''/photon_data'' then
             (case re_match_photon_data path of
                None \<Rightarrow> raise AttributeError
              | Some g1 \<Rightarrow> ret (''/photon_data'' @ g1))
           else ret path)
          (\<lambda>path'.
             if official path' = None then
               (if strict then raise (Invalid_PhotonHDF5 (Unknown_field path'))
                else print_warning (Unknown_field path'))
             else ret ()))"

text \<open>\<open>_check_valid_names(data, strict=True)\<close>: the inner loop over the nodes of a
  group, then the outer loop over the groups; \<open>already_verified\<close> is threaded through.\<close>

fun check_nodes ::
  "descr_table \<Rightarrow> bool \<Rightarrow> pyobj list \<Rightarrow> string list \<Rightarrow> string list run" where
  "check_nodes official strict [] already_verified = ret already_verified"
| "check_nodes official strict (node # nodes) already_verified =
     bind_run (lift (v_pathname node)) (\<lambda>path.
       if path \<notin> set already_verified then
         then_run (check_path official path strict)
           (check_nodes official strict nodes (already_verified @ [path]))
       else check_nodes official strict nodes already_verified)"

fun check_groups ::
  "descr_table \<Rightarrow> bool \<Rightarrow> pyobj list \<Rightarrow> string list \<Rightarrow> unit run" where
  "check_groups official strict [] already_verified = ret ()"
| "check_groups official strict (grp # groups) already_verified =
     bind_run (lift (v_pathname grp)) (\<lambda>path.
       then_run (check_path official path strict)
         (bind_run (lift (f_iter_nodes grp)) (\<lambda>nodes.
            bind_run (check_nodes official strict nodes (already_verified @ [path]))
              (\<lambda>already_verified'.
                 check_groups official strict groups already_verified'))))"

definition check_valid_names :: "descr_table \<Rightarrow> pyobj \<Rightarrow> bool \<Rightarrow> unit run" where
  "check_valid_names official data strict =
     bind_run (lift (f_walk_groups data)) (\<lambda>groups.
       check_groups official strict groups [])"

text \<open>\<open>_check_setup(setup, strict=True)\<close>.\<close>

definition mantatory_fields :: "string list" where
  "mantatory_fields =
     [''num_pixels'', ''num_spots'', ''num_spectral_ch'', ''num_polarization_ch'',
      ''num_split_ch'', ''modulated_excitation'', ''lifetime'']"

fun check_setup_fields :: "string list \<Rightarrow> pyobj \<Rightarrow> bool \<Rightarrow> unit run" where
  "check_setup_fields [] setup strict = ret ()"
| "check_setup_fields (name # names) setup strict =
     bind_run (lift (py_in name setup)) (\<lambda>present.
       then_run
         (if \<not> present then raise_invalid_file (Missing_setup_field name) strict
          else ret ())
         (check_setup_fields names setup strict))"

definition check_setup :: "pyobj \<Rightarrow> bool \<Rightarrow> unit run" where
  "check_setup setup strict = check_setup_fields mantatory_fields setup strict"

text \<open>\<open>_check_photon_data(ph_data, strict=True)\<close> and its two local functions.\<close>

definition assert_has_field :: "string \<Rightarrow> pyobj \<Rightarrow> unit run" where
  "assert_has_field name grp =
     bind_run (lift (py_in name grp)) (\<lambda>present.
       if \<not> present then
         bind_run (lift (v_pathname grp)) (\<lambda>path.
           raise (Invalid_PhotonHDF5 (Missing_in name path)))
       else ret ())"

definition assert_has_field_mtype :: "pyval \<Rightarrow> string \<Rightarrow> pyobj \<Rightarrow> unit run" where
  "assert_has_field_mtype measurement_type name grp =
     bind_run (lift (py_in name grp)) (\<lambda>present.
       if \<not> present then
         bind_run (lift (v_pathname grp)) (\<lambda>path.
           raise (Invalid_PhotonHDF5 (Missing_for_mtype name path measurement_type)))
       else ret ())"

definition spectral_meas_types :: "pyval list" where
  "spectral_meas_types =
     [VStr ''smFRET'', VStr ''smFRET-usALEX'', VStr ''smFRET-usALEX-3c'',
      VStr ''smFRET-nsALEX'']"

fun check_nanotimes_specs :: "pyval \<Rightarrow> string list \<Rightarrow> pyobj \<Rightarrow> unit run" where
  "check_nanotimes_specs measurement_type [] ph_data = ret ()"
| "check_nanotimes_specs measurement_type (name # names) ph_data =
     bind_run (lift (getattr ph_data ''nantotimes_specs'')) (\<lambda>nantotimes_specs.
       then_run (assert_has_field_mtype measurement_type name nantotimes_specs)
         (check_nanotimes_specs measurement_type names ph_data))"

text \<open>The checks below the comment \<open>At this point we have a valid measurement_type\<close>.\<close>

definition check_mtype_fields :: "pyobj \<Rightarrow> pyobj \<Rightarrow> pyval \<Rightarrow> unit run" where
  "check_mtype_fields ph_data measurement_specs measurement_type =
     bind_run (lift (getattr measurement_specs ''detectors_specs'')) (\<lambda>detectors_specs.
       then_run (assert_has_field_mtype measurement_type ''spectral_ch1'' detectors_specs)
      (then_run (assert_has_field_mtype measurement_type ''spectral_ch2'' detectors_specs)
      (then_run
         (if measurement_type \<in> set [VStr ''smFRET-usALEX'', VStr ''smFRET-usALEX-3c'']
          then assert_has_field_mtype measurement_type ''alex_period'' measurement_specs
          else ret ())
         (if measurement_type = VStr ''smFRET-nsALEX'' then
            then_run
              (assert_has_field_mtype measurement_type ''laser_pulse_rate'' measurement_specs)
           (then_run (assert_has_field_mtype measurement_type ''nantotimes'' ph_data)
           (then_run (assert_has_field_mtype measurement_type ''nantotimes_specs'' ph_data)
              (check_nanotimes_specs measurement_type
                 [''tcspc_unit'', ''tcspc_range'', ''tcspc_num_bins'', ''time_reversed'']
                 ph_data)))
          else ret ()))))"

text \<open>The part from \<open>if 'measurement_specs' not in ph_data\<close> on; each \<open>return\<close> of
  the source ends the run of the function.\<close>

definition check_measurement_specs :: "pyobj \<Rightarrow> bool \<Rightarrow> unit run" where
  "check_measurement_specs ph_data strict =
     bind_run (lift (py_in ''measurement_specs'' ph_data)) (\<lambda>has_specs.
       if \<not> has_specs then raise_invalid_file Missing_measurement_specs strict
       else
         bind_run (lift (getattr ph_data ''measurement_specs'')) (\<lambda>measurement_specs.
         bind_run (lift (py_in ''measurement_type'' measurement_specs)) (\<lambda>has_type.
           if \<not> has_type then raise_invalid_file Missing_measurement_type strict
           else
             bind_run (lift (getattr measurement_specs ''measurement_type'')) (\<lambda>mt_node.
             bind_run (lift (read mt_node)) (\<lambda>measurement_type.
               if measurement_type \<notin> set spectral_meas_types then
                 raise (Invalid_PhotonHDF5 (Unknown_measurement_type measurement_type))
               else check_mtype_fields ph_data measurement_specs measurement_type)))))"

definition check_photon_data :: "pyobj \<Rightarrow> bool \<Rightarrow> unit run" where
  "check_photon_data ph_data strict =
     then_run (assert_has_field ''timestamps'' ph_data)
    (then_run (assert_has_field ''timestamps_specs'' ph_data)
    (then_run
       (bind_run (lift (getattr ph_data ''timestamps_specs'')) (\<lambda>timestamps_specs.
          assert_has_field ''timestamps_unit'' timestamps_specs))
       (check_measurement_specs ph_data strict)))"

text \<open>\<open>assert_valid_photon_hdf5(data, strict=True)\<close>.  In the \<open>photon_data0\<close> branch
  the list \<open>ph_data_m\<close> holds the sorted keys of \<open>data._v_groups\<close>, which are strings.\<close>

fun check_all_photon_data :: "pyobj list \<Rightarrow> bool \<Rightarrow> unit run" where
  "check_all_photon_data [] strict = ret ()"
| "check_all_photon_data (ph_data # rest) strict =
     then_run (check_photon_data ph_data strict) (check_all_photon_data rest strict)"

definition find_photon_data :: "pyobj \<Rightarrow> pyobj list run" where
  "find_photon_data data =
     bind_run (lift (py_in ''photon_data'' data)) (\<lambda>single.
       if single then
         bind_run (lift (getattr data ''photon_data'')) (\<lambda>photon_data. ret [photon_data])
       else
         bind_run (lift (py_in ''photon_data0'' data)) (\<lambda>numbered.
           if numbered then
             bind_run (lift (v_groups_keys data)) (\<lambda>keys.
               ret (map Str (sort (filter (\<lambda>k. startswith k ''photon_data'') keys))))
           else raise (Invalid_PhotonHDF5 Missing_photon_data)))"

text \<open>Lines 319 to 334: everything before the setup group is looked at.\<close>

definition check_before_setup :: "descr_table \<Rightarrow> pyobj \<Rightarrow> bool \<Rightarrow> unit run" where
  "check_before_setup official data strict =
     then_run (check_valid_names official data strict)
    (then_run (check_has_field ''acquisition_time'' data strict)
    (then_run (check_has_field ''comment'' data strict)
    (bind_run (find_photon_data data) (\<lambda>ph_data_m.
       check_all_photon_data ph_data_m strict))))"

text \<open>The whole function: lines 319 to 334, then the setup group, lines 336 to 340.\<close>

definition assert_valid_photon_hdf5 :: "descr_table \<Rightarrow> pyobj \<Rightarrow> bool \<Rightarrow> unit run" where
  "assert_valid_photon_hdf5 official data strict =
     then_run (check_before_setup official data strict)
       (bind_run (lift (py_in ''setup'' data)) (\<lambda>has_setup.
          if has_setup then
            bind_run (lift (getattr data ''setup'')) (\<lambda>setup. check_setup setup strict)
          else raise_invalid_file Missing_setup_group strict))"

section \<open>The writer\<close>

text \<open>
  \<open>save_photon_hdf5\<close> changes dictionaries in place, and a dictionary can be reached
  from several places, so dictionaries live in a store: a value of a dictionary is a
  leaf value, a reference to a dictionary, or the open PyTables file.  A dictionary is
  the list of its items in insertion order.
\<close>

datatype dictval = Val pyval | Ref nat | File_ref string

type_synonym pydict = "(string \<times> dictval) list"

record heap =
  cells :: "nat \<Rightarrow> pydict"
  next_free :: nat

text \<open>\<open>heap[a] = d\<close>, and the allocation of a new dictionary.\<close>

definition store :: "nat \<Rightarrow> pydict \<Rightarrow> heap \<Rightarrow> heap" where
  "store a d h = h\<lparr>cells := (cells h)(a := d)\<rparr>"

definition alloc :: "pydict \<Rightarrow> heap \<Rightarrow> nat \<times> heap" where
  "alloc d h = (next_free h, \<lparr>cells = (cells h)(next_free h := d), next_free = Suc (next_free h)\<rparr>)"

text \<open>\<open>d[k]\<close>, and \<open>d.update(other)\<close>, which sets the items of \<open>other\<close> one by one.\<close>

definition getitem :: "pydict \<Rightarrow> string \<Rightarrow> error + dictval" where
  "getitem d k = (case map_of d k of None \<Rightarrow> Inl (KeyError k) | Some v \<Rightarrow> Inr v)"

definition dict_update :: "pydict \<Rightarrow> pydict \<Rightarrow> pydict" where
  "dict_update other d = fold (\<lambda>(k, v). AList.update k v) other d"

text \<open>
  A value used as a file name.  Where the code appends a \<open>str\<close> to it, it must be a
  \<open>str\<close>; where the code only hands it to \<open>os.path\<close>, it may be a \<open>str\<close> or
  a \<open>bytes\<close> value, and what \<open>os.path\<close> returns for it is of the same kind.  Any
  other value is refused with \<open>TypeError\<close>.
\<close>

fun as_str :: "dictval \<Rightarrow> error + string" where
  "as_str (Val (VStr s)) = Inr s"
| "as_str v = Inl TypeError"

fun as_path :: "dictval \<Rightarrow> error + (string \<Rightarrow> pyval) \<times> string" where
  "as_path (Val (VStr s)) = Inr (VStr, s)"
| "as_path (Val (VBytes s)) = Inr (VBytes, s)"
| "as_path v = Inl TypeError"

text \<open>
  What the function takes from \<open>os\<close>, \<open>time\<close>, \<open>tables\<close> and \<open>_version\<close> is a
  parameter.  \<open>os_isfile\<close> is given the output file opened so far by the call, since
  opening it creates it.
\<close>

record env =
  tables_filters :: "pydict \<Rightarrow> error option"
  tables_open_file :: "string \<Rightarrow> error option"
  os_splitext :: "string \<Rightarrow> string \<times> string"
  os_isfile :: "string option \<Rightarrow> string \<Rightarrow> bool"
  os_abspath :: "string \<Rightarrow> string"
  os_basename :: "string \<Rightarrow> string"
  time_now :: string
  ctime_str :: "string \<Rightarrow> string"
  mtime_str :: "string \<Rightarrow> string"
  version :: string
  recursion_limit :: nat

text \<open>What the writer prints, and the calls it makes on the PyTables file.  The calls
  are recorded; their own failures are not modelled.\<close>

datatype effect =
    Print_saving string  \<comment> \<open>\<open>Saving: %s\<close>\<close>
  | Print_missing_description string  \<comment> \<open>\<open>WARNING: missing description for "%s"\<close>\<close>
  | Print_no_original pyval  \<comment> \<open>\<open>WARNING: Could not locate original file '%s'\<close>\<close>
  | Create_group string string string  \<comment> \<open>parent group, name, title\<close>
  | Create_array string string dictval string  \<comment> \<open>group, name, obj, title\<close>
  | Create_carray string string dictval string
  | Flush

text \<open>\<open>_h5_write_array(group, name, obj, descr, chunked)\<close>: a \<open>str\<close> is encoded
  and stored as \<open>bytes\<close>.\<close>

fun encode_str :: "dictval \<Rightarrow> dictval" where
  "encode_str (Val (VStr s)) = Val (VBytes s)"
| "encode_str obj = obj"

definition h5_write_array ::
  "string \<Rightarrow> string \<Rightarrow> dictval \<Rightarrow> string \<Rightarrow> bool \<Rightarrow> (effect, unit) log_run" where
  "h5_write_array grp name obj descr chunked =
     (if chunked then emit (Create_carray grp name (encode_str obj) descr)
      else emit (Create_array grp name (encode_str obj) descr))"

text \<open>
  \<open>_save_photon_hdf5_dict(group, data_dict, fields_descr, prefix_list)\<close> with
  \<open>debug=False\<close>: the loop over the items of \<open>data_dict\<close>.  The group is given by its
  path.  The first argument is the recursion depth left to the interpreter; a
  dictionary that contains itself exhausts it.
\<close>

fun save_photon_hdf5_dict ::
  "nat \<Rightarrow> heap \<Rightarrow> descr_table \<Rightarrow> string \<Rightarrow> string list option \<Rightarrow> pydict \<Rightarrow>
     (effect, unit) log_run" where
  "save_photon_hdf5_dict depth h fields_descr grp prefix_list [] = ret ()"
| "save_photon_hdf5_dict depth h fields_descr grp prefix_list ((name, v) # items) =
     bind_run (lift (analyze_path name prefix_list)) (\<lambda>(descr_key, is_phdata, is_user).
       let description = (case fields_descr descr_key of None \<Rightarrow> [] | Some d \<Rightarrow> d) in
       then_run
         (if \<not> is_user \<and> description = [] then emit (Print_missing_description descr_key)
          else ret ())
      (then_run
         (case v of
            Ref a \<Rightarrow>
              then_run (emit (Create_group grp name description))
                (let new_prefix_list =
                       (case prefix_list of None \<Rightarrow> [] | Some pl \<Rightarrow> pl) @ [name] in
                 case depth of
                   0 \<Rightarrow> raise RecursionError
                 | Suc depth' \<Rightarrow>
                     save_photon_hdf5_dict depth' h fields_descr (join_path grp name)
                       (Some new_prefix_list) (cells h a))
          | _ \<Rightarrow> h5_write_array grp name v description is_phdata)
         (save_photon_hdf5_dict depth h fields_descr grp prefix_list items)))"

text \<open>\<open>get_file_metadata(fname)\<close>; the file name comes with its kind, \<open>str\<close> or
  \<open>bytes\<close>.\<close>

definition get_file_metadata ::
  "env \<Rightarrow> string option \<Rightarrow> (string \<Rightarrow> pyval) \<times> string \<Rightarrow> error + pydict" where
  "get_file_metadata env opened fname =
     (case fname of (kind, path) \<Rightarrow>
        if \<not> os_isfile env opened path then Inl AssertionError
        else
          (let full_filename = os_abspath env path;
               filename = os_basename env full_filename
           in Inr [(''filename'', Val (kind filename)),
                   (''filename_full'', Val (kind full_filename)),
                   (''creation_time'', Val (VStr (ctime_str env full_filename))),
                   (''modification_time'', Val (VStr (mtime_str env full_filename)))]))"

text \<open>
  \<open>save_photon_hdf5(data_dict, compression, h5_fname, user_descr)\<close>, in the order of the
  source.  A run of it is the store it leaves, what it printed and wrote, and the
  outcome.

  Lines 155 to 163: the name of the output file.  \<open>data_dict.pop('filename')\<close> changes
  the caller's dictionary.
\<close>

definition choose_h5_fname ::
  "env \<Rightarrow> heap \<Rightarrow> nat \<Rightarrow> pydict \<Rightarrow> string option \<Rightarrow> heap \<times> (error + string)" where
  "choose_h5_fname env h data_dict compression h5_fname =
     (case
        (case h5_fname of
           Some f \<Rightarrow> (h, Inr f)
         | None \<Rightarrow>
             (case map_of (cells h data_dict) ''filename'' of
                None \<Rightarrow> (h, Inl (KeyError ''filename''))
              | Some v \<Rightarrow>
                  (let h' = store data_dict (AList.delete ''filename'' (cells h data_dict)) h in
                   case as_str v of
                     Inl e \<Rightarrow> (h', Inl e)
                   | Inr fname \<Rightarrow>
                       (let basename = fst (os_splitext env fname) in
                        case getitem compression ''complib'' of
                          Inl e \<Rightarrow> (h', Inl e)
                        | Inr complib \<Rightarrow>
                            (h', Inr ((if complib = Val (VStr ''blosc'')
                                       then basename @ ''_blosc'' else basename)
                                      @ ''.hdf5''))))))
      of
        (h', Inl e) \<Rightarrow> (h', Inl e)
      | (h', Inr f) \<Rightarrow>
          (h', Inr (if os_isfile env None f
                    then fst (os_splitext env f) @ ''_new_copy.hdf5'' else f)))"

text \<open>Lines 175 to 186: the provenance metadata.  \<open>provenance\<close> is the dictionary that
  the item of the copy refers to, and it is updated in place.\<close>

definition add_provenance ::
  "env \<Rightarrow> string \<Rightarrow> heap \<Rightarrow> nat \<Rightarrow> heap \<times> (effect, unit) log_run" where
  "add_provenance env h5_fname h data_dict =
     (case map_of (cells h data_dict) ''provenance'' of
        None \<Rightarrow> (h, ret ())
      | Some (Ref p) \<Rightarrow>
          (case
             bind_run (lift (getitem (cells h p) ''filename'')) (\<lambda>v.
             bind_run (lift (as_path v)) (\<lambda>filename.
               if os_isfile env (Some h5_fname) (snd filename) then ret (Some filename)
               else
                 bind_run (lift (getitem (cells h p) ''filename_full'')) (\<lambda>v'.
                 bind_run (lift (as_path v')) (\<lambda>filename_full.
                   if os_isfile env (Some h5_fname) (snd filename_full)
                   then ret (Some filename_full)
                   else then_run
                          (emit (Print_no_original (fst filename (snd filename))))
                          (ret None)))))
           of
             (w, Inl e) \<Rightarrow> (h, (w, Inl e))
           | (w, Inr None) \<Rightarrow> (h, (w, Inr ()))
           | (w, Inr (Some orig_fname)) \<Rightarrow>
               (case get_file_metadata env (Some h5_fname) orig_fname of
                  Inl e \<Rightarrow> (h, (w, Inl e))
                | Inr metadata \<Rightarrow> (store p (dict_update metadata (cells h p)) h, (w, Inr ()))))
      | Some _ \<Rightarrow> (h, raise TypeError))"

text \<open>Lines 189 to 199: the identity dictionary.\<close>

definition identity_dict :: "env \<Rightarrow> string \<Rightarrow> pydict" where
  "identity_dict env h5_fname =
     (let full_h5filename = os_abspath env h5_fname;
          h5filename = os_basename env full_h5filename
      in [(''filename'', Val (VStr h5filename)),
          (''filename_full'', Val (VStr full_h5filename)),
          (''creation_time'', Val (VStr (time_now env))),
          (''software'', Val (VStr ''phconvert'')),
          (''software_version'', Val (VStr (version env))),
          (''format_name'', Val (VStr ''Photon-HDF5'')),
          (''format_version'', Val (VStr ''0.3'')),
          (''format_url'', Val (VStr ''http://photon-hdf5.readthedocs.org/''))])"

text \<open>Lines 203 to 205: the field table, \<open>official_fields_descr.copy()\<close> updated with
  \<open>user_descr\<close> when there is one.\<close>

definition build_fields_descr :: "descr_table \<Rightarrow> descr_table option \<Rightarrow> descr_table" where
  "build_fields_descr official user_descr =
     (case user_descr of None \<Rightarrow> official | Some u \<Rightarrow> official ++ u)"

text \<open>Lines 170 to 208, once the output file is open.\<close>

definition save_opened ::
  "env \<Rightarrow> descr_table \<Rightarrow> heap \<Rightarrow> nat \<Rightarrow> string \<Rightarrow> descr_table option \<Rightarrow>
     heap \<times> (effect, unit) log_run" where
  "save_opened env official h data_dict h5_fname user_descr =
     (let backup = data_dict;
          (data_dict', h1) = alloc (cells h data_dict) h;
          h2 = store backup (AList.update ''data_file'' (File_ref h5_fname) (cells h1 backup)) h1
      in
      case add_provenance env h5_fname h2 data_dict' of
        (h3, (w, Inl e)) \<Rightarrow> (h3, (w, Inl e))
      | (h3, (w, Inr u)) \<Rightarrow>
          (let (identity, h4) = alloc (identity_dict env h5_fname) h3;
               h5 = store data_dict'
                      (AList.update ''identity'' (Ref identity) (cells h4 data_dict')) h4;
               fields_descr = build_fields_descr official user_descr
           in (h5,
               then_run (w, Inr ())
                (then_run
                   (save_photon_hdf5_dict (recursion_limit env) h5 fields_descr ''/'' None
                      (cells h5 data_dict'))
                   (emit Flush)))))"

definition save_photon_hdf5 ::
  "env \<Rightarrow> descr_table \<Rightarrow> heap \<Rightarrow> nat \<Rightarrow> pydict \<Rightarrow> string option \<Rightarrow> descr_table option \<Rightarrow>
     heap \<times> (effect, unit) log_run" where
  "save_photon_hdf5 env official h data_dict compression h5_fname user_descr =
     (case tables_filters env compression of
        Some e \<Rightarrow> (h, raise e)
      | None \<Rightarrow>
          (case choose_h5_fname env h data_dict compression h5_fname of
             (h', Inl e) \<Rightarrow> (h', raise e)
           | (h', Inr fname) \<Rightarrow>
               (case official ''/'' of
                  None \<Rightarrow> (h', ([Print_saving fname], Inl (KeyError ''/'')))
                | Some title \<Rightarrow>
                    (case tables_open_file env fname of
                       Some e \<Rightarrow> (h', ([Print_saving fname], Inl e))
                     | None \<Rightarrow>
                         (case save_opened env official h' data_dict fname user_descr of
                            (h'', r) \<Rightarrow> (h'', then_run (emit (Print_saving fname)) r))))))"

section \<open>The nodes of a save\<close>

text \<open>
  The properties of the writer speak of the nodes it is given: \<open>node_at h items grp
  prefix_list\<close> holds of every item of \<open>items\<close>, with the group and the prefix list
  it is written under, and of every item of the dictionaries below, read in the store
  \<open>h\<close>.  \<open>written\<close> is the call that \<open>_save_photon_hdf5_dict\<close> makes for an item,
  given its title.
\<close>

inductive node_at ::
  "heap \<Rightarrow> pydict \<Rightarrow> string \<Rightarrow> string list option \<Rightarrow>
     string \<times> string list option \<times> string \<times> dictval \<Rightarrow> bool" where
  here: "(name, v) \<in> set items \<Longrightarrow> node_at h items grp prefix_list (grp, prefix_list, name, v)"
| below: "(name, Ref a) \<in> set items \<Longrightarrow>
     node_at h (cells h a) (join_path grp name)
       (Some ((case prefix_list of None \<Rightarrow> [] | Some pl \<Rightarrow> pl) @ [name])) node \<Longrightarrow>
     node_at h items grp prefix_list node"

fun written :: "string \<Rightarrow> string \<Rightarrow> dictval \<Rightarrow> string \<Rightarrow> bool \<Rightarrow> effect" where
  "written grp name (Ref a) title chunked = Create_group grp name title"
| "written grp name obj title chunked =
     (if chunked then Create_carray grp name (encode_str obj) title
      else Create_array grp name (encode_str obj) title)"

section \<open>Example files\<close>

text \<open>
  A measurement group of a given measurement type, with the nanotimes fields listed,
  and a setup group with every mandatory field; the witnesses below are built from
  them.
\<close>

definition example_measurement :: "string \<Rightarrow> string list \<Rightarrow> h5tree" where
  "example_measurement mtype nanotimes_fields =
     Group [(''timestamps'', Leaf (VNum 0)),
            (''timestamps_specs'', Group [(''timestamps_unit'', Leaf (VNum 1))]),
            (''nantotimes'', Leaf (VNum 0)),
            (''nantotimes_specs'', Group (map (\<lambda>n. (n, Leaf (VNum 0))) nanotimes_fields)),
            (''measurement_specs'',
               Group [(''measurement_type'', Leaf (VStr mtype)),
                      (''laser_pulse_rate'', Leaf (VNum 40)),
                      (''detectors_specs'',
                         Group [(''spectral_ch1'', Leaf (VNum 0)),
                                (''spectral_ch2'', Leaf (VNum 1))])])]"


definition example_setup :: h5tree where
  "example_setup = Group (map (\<lambda>n. (n, Leaf (VNum 1))) mantatory_fields)"

text \<open>A file with the two top-level fields, one \<open>smFRET\<close> measurement group and
  the children given; and a table that describes every path of such a file.\<close>

definition example_file :: "(string \<times> h5tree) list \<Rightarrow> pyobj" where
  "example_file children =
     Node ''/'' (Group ([(''acquisition_time'', Leaf (VNum 0)),
                         (''comment'', Leaf (VStr ''none'')),
                         (''photon_data'', example_measurement ''smFRET'' [])] @ children))"

definition example_official :: descr_table where
  "example_official =
     map_of (map (\<lambda>path. (path, ''described''))
       ([''/'', ''/acquisition_time'', ''/comment'', ''/photon_data'',
         ''/photon_data/timestamps'', ''/photon_data/timestamps_specs'',
         ''/photon_data/timestamps_specs/timestamps_unit'',
         ''/photon_data/nantotimes'', ''/photon_data/nantotimes_specs'',
         ''/photon_data/measurement_specs'',
         ''/photon_data/measurement_specs/measurement_type'',
         ''/photon_data/measurement_specs/laser_pulse_rate'',
         ''/photon_data/measurement_specs/detectors_specs'',
         ''/photon_data/measurement_specs/detectors_specs/spectral_ch1'',
         ''/photon_data/measurement_specs/detectors_specs/spectral_ch2'',
         ''/setup''] @ map (\<lambda>name. ''/setup/'' @ name) mantatory_fields))"

text \<open>
  A machine on which \<open>run.dat\<close> exists and nothing else does, and a store in which the
  caller's dictionary, at address 0, names that file and refers to a provenance
  dictionary at address 1.
\<close>

definition example_env :: env where
  "example_env =
     \<lparr>tables_filters = (\<lambda>compression. None),
      tables_open_file = (\<lambda>fname. None),
      os_splitext = (\<lambda>fname. (takeWhile (\<lambda>c. c \<noteq> CHR ''.'') fname,
                                dropWhile (\<lambda>c. c \<noteq> CHR ''.'') fname)),
      os_isfile = (\<lambda>opened fname. fname = ''run.dat''),
      os_abspath = (\<lambda>fname. ''/data/'' @ fname),
      os_basename = (\<lambda>fname. last (str_split CHR ''/'' fname)),
      time_now = ''2015-06-01 12:00:00'',
      ctime_str = (\<lambda>fname. ''2015-05-01 08:00:00''),
      mtime_str = (\<lambda>fname. ''2015-05-01 09:00:00''),
      version = ''0.3'',
      recursion_limit = 100\<rparr>"

definition example_heap :: heap where
  "example_heap =
     \<lparr>cells = (\<lambda>a. [])
        (0 := [(''filename'', Val (VStr ''run.dat'')),
               (''comment'', Val (VStr ''none'')),
               (''provenance'', Ref 1)],
         1 := [(''filename'', Val (VStr ''run.dat'')),
               (''software'', Val (VStr ''acquisition''))]),
      next_free = 2\<rparr>"

definition example_compression :: pydict where
  "example_compression = [(''complevel'', Val (VNum 6)), (''complib'', Val (VStr ''zlib''))]"

section \<open>Properties of the path analysis\<close>

lemma takeWhile_dropWhile_idem:
  "dropWhile P (takeWhile Q (dropWhile P xs)) = takeWhile Q (dropWhile P xs)"
  by (induction xs) auto

lemma str_split_nonempty: "str_split c s \<noteq> []"
  by (induction s) (auto split: list.splits)

lemma str_split_notin: "c \<notin> set s \<Longrightarrow> str_split c s = [s]"
  by (induction s) (auto split: list.splits)

lemma str_split_append: "c \<notin> set s \<Longrightarrow> str_split c (s @ c # t) = s # str_split c t"
  by (induction s) (auto split: list.splits)

lemma str_split_join:
  "xs \<noteq> [] \<Longrightarrow> \<forall>s\<in>set xs. c \<notin> set s \<Longrightarrow> str_split c (str_join [c] xs) = xs"
  by (induction "[c]" xs rule: str_join.induct) (auto simp: str_split_notin str_split_append)

lemma str_contains_iff: "str_contains s p \<longleftrightarrow> (\<exists>a b. s = a @ p @ b)"
proof (induction s)
  case Nil
  then show ?case by auto
next
  case (Cons c cs)
  show ?case
  proof
    assume "str_contains (c # cs) p"
    then consider "prefix p (c # cs)" | "str_contains cs p" by auto
    then show "\<exists>a b. c # cs = a @ p @ b"
    proof cases
      case 1
      then obtain b where "c # cs = p @ b" by (auto simp: prefix_def)
      then have "c # cs = [] @ p @ b" by simp
      then show ?thesis by blast
    next
      case 2
      with Cons.IH obtain a b where "cs = a @ p @ b" by blast
      then have "c # cs = (c # a) @ p @ b" by simp
      then show ?thesis by blast
    qed
  next
    assume "\<exists>a b. c # cs = a @ p @ b"
    then obtain a b where ab: "c # cs = a @ p @ b" by blast
    show "str_contains (c # cs) p"
    proof (cases a)
      case Nil
      with ab have "prefix p (c # cs)" by (auto simp: prefix_def)
      then show ?thesis by simp
    next
      case (Cons a0 as)
      with ab have "cs = as @ p @ b" by simp
      with Cons.IH have "str_contains cs p" by blast
      then show ?thesis by simp
    qed
  qed
qed

lemma hd_str_split_prefix: "prefix (hd (str_split c s)) s"
  by (induction s) (auto split: list.splits)

lemma tl_str_split_contains:
  "s \<in> set (tl (str_split c p)) \<Longrightarrow> str_contains p (c # s)"
proof (induction p)
  case Nil
  then show ?case by simp
next
  case (Cons x xs)
  show ?case
  proof (cases "x = c")
    case True
    with Cons.prems have "s \<in> set (str_split c xs)" by simp
    then have "s = hd (str_split c xs) \<or> s \<in> set (tl (str_split c xs))"
      by (cases "str_split c xs") auto
    then show ?thesis
    proof
      assume "s = hd (str_split c xs)"
      then have "prefix s xs" by (simp add: hd_str_split_prefix)
      with True show ?thesis by simp
    next
      assume "s \<in> set (tl (str_split c xs))"
      then show ?thesis using Cons.IH by simp
    qed
  next
    case False
    with Cons.prems have "s \<in> set (tl (str_split c xs))"
      by (auto split: list.splits)
    then show ?thesis using Cons.IH by simp
  qed
qed

lemma user_segment_contains:
  assumes "startswith path ''/''" and "''user'' \<in> set (str_split CHR ''/'' path)"
  shows "str_contains path ''/user''"
proof -
  from assms(1) obtain r where r: "path = CHR ''/'' # r"
    by (cases path) (auto simp: startswith_def)
  with assms(2) have "''user'' \<in> set (tl (str_split CHR ''/'' path))" by auto
  then show ?thesis by (rule tl_str_split_contains)
qed


lemma str_join_snoc: "pl \<noteq> [] \<Longrightarrow> str_join sep (pl @ [x]) = str_join sep pl @ sep @ x"
  by (induction sep pl rule: str_join.induct) auto

lemma str_join_nonempty:
  "pl \<noteq> [] \<Longrightarrow> \<forall>s\<in>set pl. s \<noteq> [] \<Longrightarrow> str_join sep pl \<noteq> []"
  by (induction sep pl rule: str_join.induct) auto

lemma hd_str_join:
  "pl \<noteq> [] \<Longrightarrow> \<forall>s\<in>set pl. s \<noteq> [] \<Longrightarrow> hd (str_join sep pl) = hd (hd pl)"
  by (induction sep pl rule: str_join.induct) auto

lemma last_str_join:
  "pl \<noteq> [] \<Longrightarrow> \<forall>s\<in>set pl. s \<noteq> [] \<Longrightarrow> last (str_join sep pl) = last (last pl)"
  by (induction sep pl rule: str_join.induct) (auto simp: str_join_nonempty)

lemma tl_str_split_append: "tl (str_split c (s @ c # t)) \<noteq> []"
  by (induction s) (auto simp: str_split_nonempty split: list.splits)

lemma last_str_split_append:
  "last (str_split c (s @ c # t)) = last (str_split c t)"
proof (induction s)
  case Nil
  then show ?case by (simp add: str_split_nonempty)
next
  case (Cons x xs)
  obtain w ws where w: "str_split c (xs @ c # t) = w # ws" "ws \<noteq> []"
    using tl_str_split_append [of c xs t] by (cases "str_split c (xs @ c # t)") auto
  with Cons show ?case by (auto simp: str_split_nonempty)
qed

lemma full_path_of_shape:
  "full_path_of name pl = Inr fp \<Longrightarrow> \<exists>s. fp = s @ CHR ''/'' # name"
  by (auto simp: full_path_of_def Let_def split: if_splits option.splits)

lemma full_path_of_segments:
  assumes "name \<noteq> []" "CHR ''/'' \<notin> set name" "\<forall>s\<in>set pl. s \<noteq> [] \<and> CHR ''/'' \<notin> set s"
  shows "full_path_of name (Some pl) = Inr (CHR ''/'' # str_join ''/'' (pl @ [name]))"
proof -
  have name: "hd name \<noteq> CHR ''/''" "last name \<noteq> CHR ''/''"
    using assms(1,2) by (metis hd_in_set, metis last_in_set)
  show ?thesis
  proof (cases "pl = []")
    case True
    with assms(1) name show ?thesis by (simp add: full_path_of_def)
  next
    case False
    have ne: "\<forall>s\<in>set pl. s \<noteq> []" using assms(3) by blast
    have "hd pl \<in> set pl" "last pl \<in> set pl" using False by auto
    then have "hd pl \<noteq> [] \<and> CHR ''/'' \<notin> set (hd pl)" "last pl \<noteq> [] \<and> CHR ''/'' \<notin> set (last pl)"
      using assms(3) by blast+
    then have "hd (hd pl) \<noteq> CHR ''/''" "last (last pl) \<noteq> CHR ''/''"
      by (metis hd_in_set, metis last_in_set)
    with name show ?thesis
      using False ne assms(1)
      by (simp add: full_path_of_def Let_def str_join_nonempty hd_str_join last_str_join
          str_join_snoc)
  qed
qed

lemma analyze_path_segments:
  assumes "name \<noteq> []" "CHR ''/'' \<notin> set name" "\<forall>s\<in>set pl. s \<noteq> [] \<and> CHR ''/'' \<notin> set s"
  shows "\<exists>mp ph. analyze_path name (Some pl) = Inr (mp, ph, ''user'' \<in> set (pl @ [name]))"
proof -
  let ?fp = "CHR ''/'' # str_join ''/'' (pl @ [name])"
  have fp: "full_path_of name (Some pl) = Inr ?fp"
    using assms by (rule full_path_of_segments)
  have "\<forall>s\<in>set (pl @ [name]). CHR ''/'' \<notin> set s" using assms by auto
  then have "str_split CHR ''/'' (str_join ''/'' (pl @ [name])) = pl @ [name]"
    using str_split_join [of "pl @ [name]" "CHR ''/''"] by simp
  then have chunks: "str_split CHR ''/'' ?fp = [] # pl @ [name]" by simp
  show ?thesis
    unfolding analyze_path_def fp
    by (simp only: sum.case Let_def chunks)
       (auto simp: startswith_def re_match_photon_data_def)
qed


lemma analyze_path_None: "analyze_path name None = analyze_path name (Some [])"
  by (simp add: analyze_path_def full_path_of_def)

text \<open>
  Claim C7.  A path that has a segment equal to \<open>user\<close> is exempt in the validator:
  \<open>_check_path\<close> returns at once, printing nothing and raising nothing, whatever
  \<open>strict\<close> is and whatever the official table holds.  And the writer's
  \<open>_analyze_path\<close>, given a name and ancestors that are well-formed segments (not
  empty, no separator) of which one is \<open>user\<close>, returns with \<open>is_user\<close> true.
\<close>

theorem user_exemption:
  "(startswith path ''/'' \<and> ''user'' \<in> set (str_split CHR ''/'' path) \<longrightarrow>
      check_path official path strict = ([], Inr ())) \<and>
   (name \<noteq> [] \<and> CHR ''/'' \<notin> set name \<and>
    (\<forall>s\<in>set (case prefix_list of None \<Rightarrow> [] | Some pl \<Rightarrow> pl). s \<noteq> [] \<and> CHR ''/'' \<notin> set s) \<and>
    ''user'' \<in> set ((case prefix_list of None \<Rightarrow> [] | Some pl \<Rightarrow> pl) @ [name]) \<longrightarrow>
      (\<exists>meta_path is_phdata. analyze_path name prefix_list = Inr (meta_path, is_phdata, True)))"
proof (intro conjI impI)
  assume "startswith path ''/'' \<and> ''user'' \<in> set (str_split CHR ''/'' path)"
  then have "str_contains path ''/user''" by (simp add: user_segment_contains)
  then show "check_path official path strict = ([], Inr ())"
    by (simp add: check_path_def ret_def)
next
  let ?pl = "case prefix_list of None \<Rightarrow> [] | Some pl \<Rightarrow> pl"
  assume a: "name \<noteq> [] \<and> CHR ''/'' \<notin> set name \<and>
    (\<forall>s\<in>set ?pl. s \<noteq> [] \<and> CHR ''/'' \<notin> set s) \<and> ''user'' \<in> set (?pl @ [name])"
  have eq: "analyze_path name prefix_list = analyze_path name (Some ?pl)"
    by (cases prefix_list) (simp_all add: analyze_path_None)
  from a have "\<exists>mp ph. analyze_path name (Some ?pl) = Inr (mp, ph, ''user'' \<in> set (?pl @ [name]))"
    by (intro analyze_path_segments) blast+
  with a eq show "\<exists>meta_path is_phdata. analyze_path name prefix_list = Inr (meta_path, is_phdata, True)"
    by auto
qed

text \<open>The path \<open>/photon_data1/user/extra\<close>, with an empty official table.\<close>

theorem user_exemption_witness:
  "check_path Map.empty ''/photon_data1/user/extra'' True = ([], Inr ()) \<and>
   check_path Map.empty ''/photon_data1/user/extra'' False = ([], Inr ()) \<and>
   (\<exists>meta_path is_phdata.
      analyze_path ''extra'' (Some [''photon_data1'', ''user'']) = Inr (meta_path, is_phdata, True))"
proof -
  have p: "startswith ''/photon_data1/user/extra'' ''/'' \<and>
      ''user'' \<in> set (str_split CHR ''/'' ''/photon_data1/user/extra'')"
    by (simp add: startswith_def)
  have w: "''extra'' \<noteq> [] \<and> CHR ''/'' \<notin> set ''extra'' \<and>
      (\<forall>s\<in>set (case Some [''photon_data1'', ''user''] of None \<Rightarrow> [] | Some pl \<Rightarrow> pl).
         s \<noteq> [] \<and> CHR ''/'' \<notin> set s) \<and>
      ''user'' \<in> set ((case Some [''photon_data1'', ''user''] of None \<Rightarrow> [] | Some pl \<Rightarrow> pl) @ [''extra''])"
    by simp
  from p w show ?thesis
    using user_exemption [where path = "''/photon_data1/user/extra''" and name = "''extra''"
        and prefix_list = "Some [''photon_data1'', ''user'']" and official = Map.empty
        and strict = True]
      user_exemption [where path = "''/photon_data1/user/extra''" and name = "''extra''"
        and prefix_list = "Some [''photon_data1'', ''user'']" and official = Map.empty
        and strict = False]
    by blast
qed

lemma re_match_idem:
  "re_match_photon_data p = Some g \<Longrightarrow>
     re_match_photon_data (''/photon_data'' @ g) = Some g"
  by (auto simp: re_match_photon_data_def takeWhile_dropWhile_idem split: if_splits)

lemma analyze_path_meta:
  assumes "analyze_path name pl = Inr (mp, ph, us)"
  shows "\<not> startswith mp ''/photon_data'' \<or> re_match_photon_data mp = Some (drop 12 mp)"
proof -
  obtain fp where fp: "full_path_of name pl = Inr fp"
    using assms by (cases "full_path_of name pl") (auto simp: analyze_path_def)
  show ?thesis
  proof (cases "startswith fp ''/photon_data''")
    case True
    then obtain g where g: "re_match_photon_data fp = Some g"
      by (auto simp: re_match_photon_data_def startswith_def)
    with True assms fp have "mp = ''/photon_data'' @ g"
      by (auto simp: analyze_path_def Let_def split: if_splits)
    moreover have "re_match_photon_data (''/photon_data'' @ g) = Some g"
      using g by (rule re_match_idem)
    ultimately show ?thesis by simp
  next
    case False
    with assms fp have "mp = fp"
      by (auto simp: analyze_path_def Let_def split: if_splits)
    with False show ?thesis by simp
  qed
qed

text \<open>
  Claim C6, amended.  \<open>_analyze_path\<close> takes the last segment as \<open>name\<close> and the
  ancestors as \<open>prefix_list\<close>.  For each suffix \<open>n\<close> among the empty string, \<open>0\<close>,
  \<open>1\<close> and \<open>42\<close>, the name \<open>timestamps\<close> under the ancestor \<open>photon_data\<close> followed by
  \<open>n\<close> gives the meta path \<open>/photon_data/timestamps\<close>.  And a meta path is canonical:
  when a name without separator and a prefix list spell out a path that
  \<open>_analyze_path\<close> has returned as a meta path, analysing them returns that same path.
\<close>

theorem normalize_canonical:
  "(\<forall>n\<in>set [[], ''0'', ''1'', ''42''].
      analyze_path ''timestamps'' (Some [''photon_data'' @ n]) =
        Inr (''/photon_data/timestamps'', True, False)) \<and>
   (analyze_path name prefix_list = Inr (meta_path, is_phdata, is_user) \<and>
    full_path_of name' prefix_list' = Inr meta_path \<and> CHR ''/'' \<notin> set name' \<longrightarrow>
      (\<exists>is_phdata' is_user'.
         analyze_path name' prefix_list' = Inr (meta_path, is_phdata', is_user')))"
proof (intro conjI impI)
  show "\<forall>n\<in>set [[], ''0'', ''1'', ''42''].
      analyze_path ''timestamps'' (Some [''photon_data'' @ n]) =
        Inr (''/photon_data/timestamps'', True, False)"
    by (simp add: analyze_path_def full_path_of_def startswith_def endswith_def
        re_match_photon_data_def is_digit_def newline_def suffix_to_prefix)
next
  assume a: "analyze_path name prefix_list = Inr (meta_path, is_phdata, is_user) \<and>
    full_path_of name' prefix_list' = Inr meta_path \<and> CHR ''/'' \<notin> set name'"
  then obtain s where s: "meta_path = s @ CHR ''/'' # name'"
    using full_path_of_shape by blast
  have last: "last (str_split CHR ''/'' meta_path) = name'"
    using a by (simp add: s last_str_split_append str_split_notin)
  have len: "2 \<le> length (str_split CHR ''/'' meta_path)"
    using tl_str_split_append [of "CHR ''/''" s name']
    by (cases "str_split CHR ''/'' meta_path") (auto simp: s Suc_le_eq)
  from a have m: "\<not> startswith meta_path ''/photon_data'' \<or>
      re_match_photon_data meta_path = Some (drop 12 meta_path)"
    using analyze_path_meta by blast
  have "startswith meta_path ''/photon_data'' \<Longrightarrow> ''/photon_data'' @ drop 12 meta_path = meta_path"
    by (auto simp: startswith_def prefix_def)
  with a m last len show "\<exists>is_phdata' is_user'.
      analyze_path name' prefix_list' = Inr (meta_path, is_phdata', is_user')"
    by (auto simp: analyze_path_def Let_def)
qed

text \<open>The meta path of \<open>photon_data42/timestamps\<close>, analysed again.\<close>

theorem normalize_canonical_witness:
  "analyze_path ''timestamps'' (Some [''photon_data'' @ ''42'']) =
     Inr (''/photon_data/timestamps'', True, False) \<and>
   (\<exists>is_phdata' is_user'.
      analyze_path ''timestamps'' (Some [''photon_data'']) =
        Inr (''/photon_data/timestamps'', is_phdata', is_user'))"
proof -
  have n: "''42'' \<in> set [[], ''0'', ''1'', ''42'']" by simp
  have first: "analyze_path ''timestamps'' (Some [''photon_data'' @ ''42'']) =
      Inr (''/photon_data/timestamps'', True, False)"
    using normalize_canonical n by blast
  have fp: "full_path_of ''timestamps'' (Some [''photon_data'']) = Inr ''/photon_data/timestamps''"
    by (simp add: full_path_of_def)
  have "analyze_path ''timestamps'' (Some [''photon_data'' @ ''42'']) =
            Inr (''/photon_data/timestamps'', True, False) \<and>
        full_path_of ''timestamps'' (Some [''photon_data'']) = Inr ''/photon_data/timestamps'' \<and>
        CHR ''/'' \<notin> set ''timestamps''"
    using first fp by simp
  then have "\<exists>is_phdata' is_user'.
      analyze_path ''timestamps'' (Some [''photon_data'']) =
        Inr (''/photon_data/timestamps'', is_phdata', is_user')"
    using normalize_canonical [where name = "''timestamps''"
        and prefix_list = "Some [''photon_data'' @ ''42'']"
        and meta_path = "''/photon_data/timestamps''" and is_phdata = True and is_user = False
        and name' = "''timestamps''" and prefix_list' = "Some [''photon_data'']"]
    by blast
  with first show ?thesis by blast
qed

text \<open>
  Claim C6 as stated fails: the whole path \<open>photon_data42/timestamps\<close> passed as the
  name, with an empty or absent ancestor list, fails the assertion
  \<open>name == chunks[-1]\<close>.
\<close>

theorem normalize_joined_name_counterexample:
  "analyze_path ''photon_data42/timestamps'' (Some []) = Inl AssertionError \<and>
   analyze_path ''photon_data42/timestamps'' None = Inl AssertionError"
  by (simp add: analyze_path_def full_path_of_def)

lemma build_fields_descr_precedence:
  "(user_descr p = Some d' \<longrightarrow> build_fields_descr official (Some user_descr) p = Some d') \<and>
   (user_descr p = None \<longrightarrow>
      build_fields_descr official (Some user_descr) p = official p) \<and>
   build_fields_descr official None = official"
  by (simp add: build_fields_descr_def map_add_def)

section \<open>Properties of the validator\<close>

lemma bind_run_Inl [simp]: "bind_run (w, Inl e) f = (w, Inl e)"
  by (simp add: bind_run_def)

lemma bind_run_Inr [simp]: "bind_run (w, Inr x) f = (w @ fst (f x), snd (f x))"
  by (simp add: bind_run_def split: prod.splits)

lemma bind_run_ret [simp]: "bind_run (ret x) f = f x"
  by (simp add: ret_def)

lemma bind_run_raise [simp]: "bind_run (raise e) f = raise e"
  by (simp add: raise_def)

lemma bind_run_lift_Inr [simp]: "bind_run (lift (Inr x)) f = f x"
  by (simp add: lift_def)

lemma bind_run_lift_Inl [simp]: "bind_run (lift (Inl e)) f = raise e"
  by (simp add: lift_def raise_def)

lemma then_run_ret [simp]: "then_run (ret ()) n = n"
  by (simp add: then_run_def)

lemma then_run_raise [simp]: "then_run (raise e) n = raise e"
  by (simp add: then_run_def)

lemma then_run_Inl [simp]: "then_run (w, Inl e) n = (w, Inl e)"
  by (simp add: then_run_def)

lemma then_run_Inr [simp]: "then_run (w, Inr u) n = (w @ fst n, snd n)"
  by (simp add: then_run_def)

lemma map_of_keys: "map_of cs k = Some t \<Longrightarrow> k \<in> fst ` set cs"
  by (metis map_of_eq_None_iff option.distinct(1))

lemma assert_has_field_group:
  "assert_has_field name (Node p (Group cs)) =
     (if name \<in> fst ` set cs then ret ()
      else raise (Invalid_PhotonHDF5 (Missing_in name p)))"
  by (simp add: assert_has_field_def)


lemma check_photon_data_timestamps:
  assumes "''timestamps'' \<in> fst ` set cs" "map_of cs ''timestamps_specs'' = Some (Group ts)"
    "''timestamps_unit'' \<in> fst ` set ts"
  shows "check_photon_data (Node p (Group cs)) strict =
     check_measurement_specs (Node p (Group cs)) strict"
  using assms map_of_keys [OF assms(2)]
  by (simp add: check_photon_data_def assert_has_field_group)

lemma check_photon_data_no_timestamps:
  "''timestamps'' \<notin> fst ` set cs \<Longrightarrow>
     check_photon_data (Node p (Group cs)) strict =
       ([], Inl (Invalid_PhotonHDF5 (Missing_in ''timestamps'' p)))"
  by (simp add: check_photon_data_def assert_has_field_group raise_def)

lemma check_photon_data_no_timestamps_specs:
  "''timestamps'' \<in> fst ` set cs \<Longrightarrow> ''timestamps_specs'' \<notin> fst ` set cs \<Longrightarrow>
     check_photon_data (Node p (Group cs)) strict =
       ([], Inl (Invalid_PhotonHDF5 (Missing_in ''timestamps_specs'' p)))"
  by (simp add: check_photon_data_def assert_has_field_group raise_def)

lemma check_photon_data_no_timestamps_unit:
  assumes "''timestamps'' \<in> fst ` set cs" "map_of cs ''timestamps_specs'' = Some (Group ts)"
    "''timestamps_unit'' \<notin> fst ` set ts"
  shows "check_photon_data (Node p (Group cs)) strict =
       ([], Inl (Invalid_PhotonHDF5
                   (Missing_in ''timestamps_unit'' (join_path p ''timestamps_specs''))))"
  using assms map_of_keys [OF assms(2)]
  by (simp add: check_photon_data_def assert_has_field_group raise_def)

text \<open>
  Claim C3, amended.  The three timestamps checks of a measurement group do not look at
  \<open>strict\<close>: with \<open>strict\<close> false as with \<open>strict\<close> true, a group without
  \<open>timestamps\<close>, or with it and without \<open>timestamps_specs\<close>, or with both and a
  \<open>timestamps_specs\<close> group that lacks \<open>timestamps_unit\<close>, makes
  \<open>_check_photon_data\<close> raise \<open>Invalid_PhotonHDF5\<close> naming the missing field, and
  nothing is printed.
\<close>

theorem timestamps_checks_unconditional:
  "(''timestamps'' \<notin> fst ` set cs \<longrightarrow>
      check_photon_data (Node p (Group cs)) strict =
        ([], Inl (Invalid_PhotonHDF5 (Missing_in ''timestamps'' p)))) \<and>
   (''timestamps'' \<in> fst ` set cs \<and> ''timestamps_specs'' \<notin> fst ` set cs \<longrightarrow>
      check_photon_data (Node p (Group cs)) strict =
        ([], Inl (Invalid_PhotonHDF5 (Missing_in ''timestamps_specs'' p)))) \<and>
   (''timestamps'' \<in> fst ` set cs \<and> map_of cs ''timestamps_specs'' = Some (Group ts) \<and>
    ''timestamps_unit'' \<notin> fst ` set ts \<longrightarrow>
      check_photon_data (Node p (Group cs)) strict =
        ([], Inl (Invalid_PhotonHDF5
                    (Missing_in ''timestamps_unit'' (join_path p ''timestamps_specs'')))))"
  by (simp add: check_photon_data_no_timestamps check_photon_data_no_timestamps_specs
      check_photon_data_no_timestamps_unit)

text \<open>Three groups, each lacking one of the three, with \<open>strict\<close> false.\<close>

theorem timestamps_checks_unconditional_witness:
  "check_photon_data (Node ''/photon_data'' (Group [(''detectors'', Leaf (VNum 0))])) False =
     ([], Inl (Invalid_PhotonHDF5 (Missing_in ''timestamps'' ''/photon_data''))) \<and>
   check_photon_data (Node ''/photon_data'' (Group [(''timestamps'', Leaf (VNum 0))])) False =
     ([], Inl (Invalid_PhotonHDF5 (Missing_in ''timestamps_specs'' ''/photon_data''))) \<and>
   check_photon_data
     (Node ''/photon_data''
        (Group [(''timestamps'', Leaf (VNum 0)), (''timestamps_specs'', Group [])])) False =
     ([], Inl (Invalid_PhotonHDF5
                 (Missing_in ''timestamps_unit'' ''/photon_data/timestamps_specs'')))"
proof -
  have a: "''timestamps'' \<notin> fst ` set [(''detectors'', Leaf (VNum 0))]" by simp
  have b: "''timestamps'' \<in> fst ` set [(''timestamps'', Leaf (VNum 0))] \<and>
      ''timestamps_specs'' \<notin> fst ` set [(''timestamps'', Leaf (VNum 0))]" by simp
  have c: "''timestamps'' \<in> fst ` set [(''timestamps'', Leaf (VNum 0)), (''timestamps_specs'', Group [])] \<and>
      map_of [(''timestamps'', Leaf (VNum 0)), (''timestamps_specs'', Group [])] ''timestamps_specs''
        = Some (Group []) \<and>
      ''timestamps_unit'' \<notin> fst ` set []" by simp
  have j: "join_path ''/photon_data'' ''timestamps_specs'' = ''/photon_data/timestamps_specs''"
    by (simp add: join_path_def)
  show ?thesis
    using a b c j
      timestamps_checks_unconditional [where cs = "[(''detectors'', Leaf (VNum 0))]"
        and p = "''/photon_data''" and strict = False]
      timestamps_checks_unconditional [where cs = "[(''timestamps'', Leaf (VNum 0))]"
        and p = "''/photon_data''" and strict = False]
      timestamps_checks_unconditional [where
        cs = "[(''timestamps'', Leaf (VNum 0)), (''timestamps_specs'', Group [])]"
        and ts = "[]" and p = "''/photon_data''" and strict = False]
    by metis
qed

text \<open>
  Claim C3 as stated fails: with \<open>strict\<close> false, an empty measurement group gives no
  warning; the exception is raised.
\<close>

theorem timestamps_gated_counterexample:
  "check_photon_data (Node ''/photon_data'' (Group [])) False =
     ([], Inl (Invalid_PhotonHDF5 (Missing_in ''timestamps'' ''/photon_data'')))"
  by (simp add: check_photon_data_def assert_has_field_group raise_def)

lemma assert_has_field_leaf:
  "assert_has_field name (Node p (Leaf x)) = raise (Invalid_PhotonHDF5 (Missing_in name p))"
  by (simp add: assert_has_field_def)


lemma check_photon_data_leaf_timestamps_specs:
  assumes "''timestamps'' \<in> fst ` set cs" "map_of cs ''timestamps_specs'' = Some (Leaf x)"
  shows "check_photon_data (Node p (Group cs)) strict =
       ([], Inl (Invalid_PhotonHDF5
                   (Missing_in ''timestamps_unit'' (join_path p ''timestamps_specs''))))"
  using assms map_of_keys [OF assms(2)]
  by (simp add: check_photon_data_def assert_has_field_group assert_has_field_leaf raise_def)

text \<open>The timestamps checks raise \<open>Invalid_PhotonHDF5\<close> or leave the rest of the
  function to decide.\<close>

lemma check_photon_data_cases:
  "(\<exists>i. check_photon_data (Node p (Group cs)) strict = ([], Inl (Invalid_PhotonHDF5 i))) \<or>
   (''timestamps'' \<in> fst ` set cs \<and>
    (\<exists>ts. map_of cs ''timestamps_specs'' = Some (Group ts) \<and> ''timestamps_unit'' \<in> fst ` set ts) \<and>
    check_photon_data (Node p (Group cs)) strict =
      check_measurement_specs (Node p (Group cs)) strict)"
proof (cases "''timestamps'' \<in> fst ` set cs")
  case False
  then show ?thesis by (simp add: check_photon_data_no_timestamps)
next
  case True
  note t = this
  show ?thesis
  proof (cases "map_of cs ''timestamps_specs''")
    case None
    then have "''timestamps_specs'' \<notin> fst ` set cs" by (simp add: map_of_eq_None_iff)
    with t show ?thesis by (simp add: check_photon_data_no_timestamps_specs)
  next
    case (Some node)
    show ?thesis
    proof (cases node)
      case (Leaf x)
      with Some t show ?thesis by (simp add: check_photon_data_leaf_timestamps_specs)
    next
      case (Group tsp)
      with Some have tsp: "map_of cs ''timestamps_specs'' = Some (Group tsp)" by simp
      show ?thesis
      proof (cases "''timestamps_unit'' \<in> fst ` set tsp")
        case False
        with t tsp show ?thesis by (simp add: check_photon_data_no_timestamps_unit)
      next
        case True
        with t tsp show ?thesis by (simp add: check_photon_data_timestamps)
      qed
    qed
  qed
qed

lemma check_measurement_specs_typed:
  assumes "map_of cs ''measurement_specs'' = Some (Group ms)"
    "map_of ms ''measurement_type'' = Some (Leaf v)"
  shows "check_measurement_specs (Node p (Group cs)) strict =
     (if v \<notin> set spectral_meas_types
      then raise (Invalid_PhotonHDF5 (Unknown_measurement_type v))
      else check_mtype_fields (Node p (Group cs))
             (Node (join_path p ''measurement_specs'') (Group ms)) v)"
  using assms map_of_keys [OF assms(1)] map_of_keys [OF assms(2)]
  by (simp add: check_measurement_specs_def)

lemma check_photon_data_unknown_type:
  assumes ms: "map_of cs ''measurement_specs'' = Some (Group ms)"
    and mt: "map_of ms ''measurement_type'' = Some (Leaf v)"
    and v: "v \<notin> set spectral_meas_types"
  shows "\<exists>i. check_photon_data (Node p (Group cs)) strict = ([], Inl (Invalid_PhotonHDF5 i))"
  using check_photon_data_cases [of p cs strict] ms mt v
  by (auto simp: check_measurement_specs_typed raise_def)

text \<open>
  Claim C4.  A measurement group whose \<open>measurement_specs/measurement_type\<close> reads a
  value outside the four recognized identifiers makes \<open>_check_photon_data\<close> raise
  \<open>Invalid_PhotonHDF5\<close>, whatever \<open>strict\<close> is; when the timestamps fields are all
  there, the exception is the one for the unknown measurement type.  A \<open>bytes\<close>
  value is outside the four identifiers, which are \<open>str\<close> values.
\<close>

theorem unknown_measurement_type_hard:
  assumes "map_of cs ''measurement_specs'' = Some (Group ms)"
    and "map_of ms ''measurement_type'' = Some (Leaf v)"
    and "v \<notin> set spectral_meas_types"
  shows "(\<exists>i. check_photon_data (Node p (Group cs)) strict = ([], Inl (Invalid_PhotonHDF5 i))) \<and>
    (''timestamps'' \<in> fst ` set cs \<and> map_of cs ''timestamps_specs'' = Some (Group ts) \<and>
     ''timestamps_unit'' \<in> fst ` set ts \<longrightarrow>
       check_photon_data (Node p (Group cs)) strict =
         ([], Inl (Invalid_PhotonHDF5 (Unknown_measurement_type v))))"
  using assms
  by (simp add: check_photon_data_unknown_type check_photon_data_timestamps
      check_measurement_specs_typed raise_def)

text \<open>The example group with measurement type \<open>FCS\<close>.\<close>

theorem unknown_measurement_type_hard_witness:
  "check_photon_data (Node ''/photon_data'' (example_measurement ''FCS'' [])) False =
     ([], Inl (Invalid_PhotonHDF5 (Unknown_measurement_type (VStr ''FCS'')))) \<and>
   check_photon_data (Node ''/photon_data'' (example_measurement ''FCS'' [])) True =
     ([], Inl (Invalid_PhotonHDF5 (Unknown_measurement_type (VStr ''FCS''))))"
proof -
  let ?ms = "[(''measurement_type'', Leaf (VStr ''FCS'')),
              (''laser_pulse_rate'', Leaf (VNum 40)),
              (''detectors_specs'',
                 Group [(''spectral_ch1'', Leaf (VNum 0)), (''spectral_ch2'', Leaf (VNum 1))])]"
  let ?ts = "[(''timestamps_unit'', Leaf (VNum 1))]"
  let ?cs = "[(''timestamps'', Leaf (VNum 0)),
              (''timestamps_specs'', Group ?ts),
              (''nantotimes'', Leaf (VNum 0)),
              (''nantotimes_specs'', Group []),
              (''measurement_specs'', Group ?ms)]"
  have e: "example_measurement ''FCS'' [] = Group ?cs"
    by (simp add: example_measurement_def)
  have h1: "map_of ?cs ''measurement_specs'' = Some (Group ?ms)" by simp
  have h2: "map_of ?ms ''measurement_type'' = Some (Leaf (VStr ''FCS''))" by simp
  have h3: "VStr ''FCS'' \<notin> set spectral_meas_types" by (simp add: spectral_meas_types_def)
  have h5: "''timestamps'' \<in> fst ` set ?cs \<and> map_of ?cs ''timestamps_specs'' = Some (Group ?ts) \<and>
      ''timestamps_unit'' \<in> fst ` set ?ts" by simp
  show ?thesis
    unfolding e
    using h5 unknown_measurement_type_hard [OF h1 h2 h3, where ts = ?ts and p = "''/photon_data''"]
    by blast
qed
















lemma snd_bind_run:
  "snd (bind_run m f) = (case snd m of Inl e \<Rightarrow> Inl e | Inr x \<Rightarrow> snd (f x))"
  by (cases m) (auto simp: bind_run_def split: sum.splits prod.splits)

lemma snd_then_run:
  "snd (then_run m n) = (case snd m of Inl e \<Rightarrow> Inl e | Inr x \<Rightarrow> snd n)"
  by (simp add: then_run_def snd_bind_run)

lemma check_path_lenient: "snd (check_path official path False) = Inr ()"
  by (auto simp: check_path_def ret_def raise_def print_warning_def emit_def startswith_def
      re_match_photon_data_def snd_bind_run)

lemma check_nodes_lenient:
  "\<forall>n\<in>set nodes. \<exists>q t. n = Node q t \<Longrightarrow>
     \<exists>vs. snd (check_nodes official False nodes verified) = Inr vs"
proof (induction nodes arbitrary: verified)
  case Nil
  then show ?case by (simp add: ret_def)
next
  case (Cons n nodes)
  then obtain q t where n: "n = Node q t" by auto
  from Cons have ih: "\<exists>vs. snd (check_nodes official False nodes v) = Inr vs" for v by simp
  show ?case
    using ih [of verified] ih [of "verified @ [q]"]
    by (auto simp: n snd_then_run check_path_lenient)
qed

lemma child_groups_groups: "(q, g) \<in> set (child_groups p t) \<Longrightarrow> \<exists>cs. g = Group cs"
proof (cases t)
  case (Group cs)
  assume "(q, g) \<in> set (child_groups p t)"
  with Group have "is_group g" by auto
  then show ?thesis by (cases g) auto
next
  case (Leaf v)
  assume "(q, g) \<in> set (child_groups p t)"
  with Leaf show ?thesis by simp
qed

lemma walk_stack_groups: "\<forall>g\<in>set (walk_stack stack). \<exists>q cs. g = Node q (Group cs)"
proof (induction stack rule: walk_stack.induct)
  case 1
  then show ?case by simp
next
  case (2 p t stack)
  have "\<forall>g\<in>set (map (\<lambda>(q, g). Node q g) (child_groups p t)). \<exists>q cs. g = Node q (Group cs)"
    using child_groups_groups [of _ _ p t] by fastforce
  with 2 show ?case by (auto simp del: child_groups.simps)
qed

lemma check_groups_lenient:
  "\<forall>g\<in>set groups. \<exists>q cs. g = Node q (Group cs) \<Longrightarrow>
     snd (check_groups official False groups verified) = Inr ()"
proof (induction groups arbitrary: verified)
  case Nil
  then show ?case by (simp add: ret_def)
next
  case (Cons g groups)
  then obtain q cs where g: "g = Node q (Group cs)" by auto
  from Cons have ih: "snd (check_groups official False groups v) = Inr ()" for v by simp
  have "\<exists>vs. snd (check_nodes official False
      (map (\<lambda>(n, t). Node (join_path q n) t) (sort_key fst cs)) (verified @ [q])) = Inr vs"
    by (rule check_nodes_lenient) auto
  then show ?case
    by (auto simp: g snd_then_run snd_bind_run check_path_lenient ih)
qed

lemma check_valid_names_lenient:
  "snd (check_valid_names official (Node p (Group cs)) False) = Inr ()"
proof -
  have "\<forall>g\<in>set (Node p (Group cs) # walk_stack [(p, Group cs)]). \<exists>q cs. g = Node q (Group cs)"
    using walk_stack_groups [of "[(p, Group cs)]"] by simp
  then have "snd (check_groups official False
      (Node p (Group cs) # walk_stack [(p, Group cs)]) []) = Inr ()"
    by (rule check_groups_lenient)
  then show ?thesis
    by (simp add: check_valid_names_def del: check_groups.simps walk_stack.simps)
qed

subsection \<open>The whole file\<close>

lemma check_has_field_group:
  "check_has_field name (Node p (Group cs)) strict =
     (if name \<in> fst ` set cs then ret ()
      else raise (Invalid_PhotonHDF5 (Missing_in name p)))"
  by (simp add: check_has_field_def raise_invalid_file_def)

lemma check_photon_data_Str: "check_photon_data (Str s) strict = ([], Inl AttributeError)"
  by (simp add: check_photon_data_def assert_has_field_def raise_def ret_def)

text \<open>With \<open>strict\<close> false, a file without \<open>comment\<close> is refused, and so is one
  that has a numbered family of measurement groups: the two evaluations below are
  instances.\<close>

lemma find_photon_data_group:
  "find_photon_data (Node p (Group rs)) =
     (case map_of rs ''photon_data'' of
        Some t \<Rightarrow> ret [Node (join_path p ''photon_data'') t]
      | None \<Rightarrow>
          if ''photon_data0'' \<in> fst ` set rs then
            ret (map Str (sort (filter (\<lambda>k. startswith k ''photon_data'')
                                  (map fst (filter (\<lambda>(n, t). is_group t) rs)))))
          else raise (Invalid_PhotonHDF5 Missing_photon_data))"
proof (cases "map_of rs ''photon_data''")
  case None
  then have "''photon_data'' \<notin> fst ` set rs" by (simp add: map_of_eq_None_iff)
  with None show ?thesis by (simp add: find_photon_data_def)
next
  case (Some t)
  then have "''photon_data'' \<in> fst ` set rs" by (rule map_of_keys)
  with Some show ?thesis by (simp add: find_photon_data_def)
qed

lemma check_all_photon_data_Str:
  "names \<noteq> [] \<Longrightarrow> check_all_photon_data (map Str names) strict = ([], Inl AttributeError)"
  by (cases names) (simp_all add: check_photon_data_Str)

lemma missing_comment_lenient:
  assumes "''acquisition_time'' \<in> fst ` set rs" "''comment'' \<notin> fst ` set rs"
  shows "snd (assert_valid_photon_hdf5 official (Node p (Group rs)) False) =
     Inl (Invalid_PhotonHDF5 (Missing_in ''comment'' p))"
  using assms
  by (simp add: assert_valid_photon_hdf5_def check_before_setup_def snd_then_run
      check_valid_names_lenient check_has_field_group ret_def raise_def)

lemma in_set_nonempty: "x \<in> set xs \<Longrightarrow> xs \<noteq> []"
  by auto

lemma numbered_family_lenient:
  assumes "''acquisition_time'' \<in> fst ` set rs" "''comment'' \<in> fst ` set rs"
    and "''photon_data'' \<notin> fst ` set rs" "(''photon_data0'', Group g) \<in> set rs"
  shows "snd (assert_valid_photon_hdf5 official (Node p (Group rs)) False) = Inl AttributeError"
proof -
  let ?keys = "sort (filter (\<lambda>k. startswith k ''photon_data'')
                       (map fst (filter (\<lambda>(n, t). is_group t) rs)))"
  have "''photon_data0'' \<in> set (map fst (filter (\<lambda>(n, t). is_group t) rs))"
    using assms(4) by force
  then have "''photon_data0'' \<in> set ?keys" by (simp add: startswith_def)
  then have ne: "?keys \<noteq> []" by (rule in_set_nonempty)
  have "''photon_data0'' \<in> fst ` set rs" using assms(4) by force
  moreover have "map_of rs ''photon_data'' = None"
    using assms(3) by (simp add: map_of_eq_None_iff)
  ultimately have "find_photon_data (Node p (Group rs)) = ret (map Str ?keys)"
    by (simp add: find_photon_data_group)
  with assms(1,2) ne show ?thesis
    by (simp add: assert_valid_photon_hdf5_def check_before_setup_def snd_then_run snd_bind_run
        check_valid_names_lenient check_has_field_group ret_def check_all_photon_data_Str)
qed

text \<open>
  Claim C2.  The claim asks for a warning when \<open>strict\<close> is false.  The code raises:
  for a file without \<open>comment\<close>, and for one without \<open>acquisition_time\<close>,
  \<open>assert_valid_photon_hdf5\<close> with \<open>strict\<close> false ends in
  \<open>Invalid_PhotonHDF5\<close>, whatever the official table holds.
\<close>

theorem missing_comment_raises_when_lenient:
  "snd (assert_valid_photon_hdf5 official
          (Node ''/'' (Group [(''acquisition_time'', Leaf (VNum 0)),
                              (''photon_data'', example_measurement ''smFRET'' []),
                              (''setup'', example_setup)]))
          False) =
     Inl (Invalid_PhotonHDF5 (Missing_in ''comment'' ''/'')) \<and>
   snd (assert_valid_photon_hdf5 official
          (Node ''/'' (Group [(''comment'', Leaf (VStr ''none'')),
                              (''photon_data'', example_measurement ''smFRET'' []),
                              (''setup'', example_setup)]))
          False) =
     Inl (Invalid_PhotonHDF5 (Missing_in ''acquisition_time'' ''/''))"
  by (simp add: assert_valid_photon_hdf5_def check_before_setup_def snd_then_run
      check_valid_names_lenient check_has_field_group ret_def raise_def)

text \<open>
  Claim C5.  The claim asks that each group of a numbered family be checked.  The code
  passes the names of the groups to \<open>_check_photon_data\<close>: for a file with two well
  formed groups \<open>photon_data0\<close> and \<open>photon_data1\<close>, the validation ends in
  \<open>AttributeError\<close>, whatever the official table holds.
\<close>

theorem numbered_family_attribute_error:
  "snd (assert_valid_photon_hdf5 official
          (Node ''/'' (Group [(''acquisition_time'', Leaf (VNum 0)),
                              (''comment'', Leaf (VStr ''none'')),
                              (''photon_data0'', example_measurement ''smFRET'' []),
                              (''photon_data1'', example_measurement ''smFRET'' []),
                              (''setup'', example_setup)]))
          False) =
     Inl AttributeError"
proof -
  let ?data = "Node ''/'' (Group [(''acquisition_time'', Leaf (VNum 0)),
                              (''comment'', Leaf (VStr ''none'')),
                              (''photon_data0'', example_measurement ''smFRET'' []),
                              (''photon_data1'', example_measurement ''smFRET'' []),
                              (''setup'', example_setup)])"
  have "find_photon_data ?data = ret [Str ''photon_data0'', Str ''photon_data1'']"
    by (simp add: find_photon_data_def example_measurement_def example_setup_def
        startswith_def)
  then show ?thesis
    by (simp add: assert_valid_photon_hdf5_def check_before_setup_def snd_then_run snd_bind_run
        check_valid_names_lenient check_has_field_group ret_def check_photon_data_Str)
qed


lemma check_setup_fields_lenient:
  "check_setup_fields names (Node p (Group ss)) False =
     (map Missing_setup_field (filter (\<lambda>n. n \<notin> fst ` set ss) names), Inr ())"
  by (induction names)
     (simp_all add: ret_def raise_invalid_file_def print_warning_def emit_def)

lemma check_setup_fields_strict:
  "check_setup_fields names (Node p (Group ss)) True =
     (case filter (\<lambda>n. n \<notin> fst ` set ss) names of
        [] \<Rightarrow> ([], Inr ())
      | n # _ \<Rightarrow> ([], Inl (Invalid_PhotonHDF5 (Missing_setup_field n))))"
  by (induction names)
     (simp_all add: ret_def raise_invalid_file_def raise_def split: list.splits)

text \<open>
  Claim C8.  When everything before the setup group passes with the warnings \<open>w\<close>:
  a file without \<open>setup\<close> raises when \<open>strict\<close> is true and adds one warning and
  returns when it is false; a file whose \<open>setup\<close> group lacks mandatory fields
  raises for the first of them when \<open>strict\<close> is true, and adds a warning for each
  and returns when it is false.
\<close>

theorem setup_checks_gated:
  assumes "check_before_setup official (Node p (Group rs)) strict = (w, Inr ())"
  shows "(''setup'' \<notin> fst ` set rs \<longrightarrow>
            assert_valid_photon_hdf5 official (Node p (Group rs)) strict =
              (if strict then (w, Inl (Invalid_PhotonHDF5 Missing_setup_group))
               else (w @ [Missing_setup_group], Inr ()))) \<and>
         (map_of rs ''setup'' = Some (Group ss) \<longrightarrow>
            assert_valid_photon_hdf5 official (Node p (Group rs)) strict =
              (if strict then
                 (case filter (\<lambda>n. n \<notin> fst ` set ss) mantatory_fields of
                    [] \<Rightarrow> (w, Inr ())
                  | n # _ \<Rightarrow> (w, Inl (Invalid_PhotonHDF5 (Missing_setup_field n))))
               else
                 (w @ map Missing_setup_field
                        (filter (\<lambda>n. n \<notin> fst ` set ss) mantatory_fields),
                  Inr ())))"
proof (intro conjI impI)
  assume "''setup'' \<notin> fst ` set rs"
  with assms show "assert_valid_photon_hdf5 official (Node p (Group rs)) strict =
      (if strict then (w, Inl (Invalid_PhotonHDF5 Missing_setup_group))
       else (w @ [Missing_setup_group], Inr ()))"
    by (simp add: assert_valid_photon_hdf5_def raise_invalid_file_def raise_def
        print_warning_def emit_def)
next
  assume s: "map_of rs ''setup'' = Some (Group ss)"
  then have "''setup'' \<in> fst ` set rs" by (rule map_of_keys)
  with assms s show "assert_valid_photon_hdf5 official (Node p (Group rs)) strict =
      (if strict then
         (case filter (\<lambda>n. n \<notin> fst ` set ss) mantatory_fields of
            [] \<Rightarrow> (w, Inr ())
          | n # _ \<Rightarrow> (w, Inl (Invalid_PhotonHDF5 (Missing_setup_field n))))
       else
         (w @ map Missing_setup_field (filter (\<lambda>n. n \<notin> fst ` set ss) mantatory_fields),
          Inr ()))"
    by (simp add: assert_valid_photon_hdf5_def check_setup_def check_setup_fields_lenient
        check_setup_fields_strict split: list.splits)
qed


text \<open>The example file without a setup group, and with one that has \<open>num_pixels\<close>
  alone.\<close>

theorem setup_checks_gated_witness:
  "assert_valid_photon_hdf5 example_official (example_file []) True =
     ([], Inl (Invalid_PhotonHDF5 Missing_setup_group)) \<and>
   assert_valid_photon_hdf5 example_official (example_file []) False =
     ([Missing_setup_group], Inr ()) \<and>
   assert_valid_photon_hdf5 example_official
     (example_file [(''setup'', Group [(''num_pixels'', Leaf (VNum 1))])]) False =
     ([Missing_setup_field ''num_spots'', Missing_setup_field ''num_spectral_ch'',
       Missing_setup_field ''num_polarization_ch'', Missing_setup_field ''num_split_ch'',
       Missing_setup_field ''modulated_excitation'', Missing_setup_field ''lifetime''],
      Inr ())"
proof -
  let ?rs = "[(''acquisition_time'', Leaf (VNum 0)), (''comment'', Leaf (VStr ''none'')),
              (''photon_data'', example_measurement ''smFRET'' [])]"
  let ?ss = "[(''num_pixels'', Leaf (VNum 1))]"
  have f: "example_file children = Node ''/'' (Group (?rs @ children))" for children
    by (simp add: example_file_def)
  have pre1: "check_before_setup example_official (Node ''/'' (Group (?rs @ []))) strict
      = ([], Inr ())" for strict
    unfolding f [symmetric] by (cases strict; code_simp)
  have pre2: "check_before_setup example_official
      (Node ''/'' (Group (?rs @ [(''setup'', Group ?ss)]))) False = ([], Inr ())"
    unfolding f [symmetric] by code_simp
  have a: "''setup'' \<notin> fst ` set (?rs @ [])" by simp
  have b: "map_of (?rs @ [(''setup'', Group ?ss)]) ''setup'' = Some (Group ?ss)" by simp
  have m: "filter (\<lambda>n. n \<notin> fst ` set ?ss) mantatory_fields =
      [''num_spots'', ''num_spectral_ch'', ''num_polarization_ch'', ''num_split_ch'',
       ''modulated_excitation'', ''lifetime'']"
    by (simp add: mantatory_fields_def)
  show ?thesis
    unfolding f
    using setup_checks_gated [OF pre1 [of True]] setup_checks_gated [OF pre1 [of False]]
      setup_checks_gated [OF pre2, where ss = ?ss] a b m
    by simp
qed

section \<open>Properties of the writer\<close>

lemma cells_store: "cells (store a d h) b = (if b = a then d else cells h b)"
  by (simp add: store_def)

lemma next_free_store: "next_free (store a d h) = next_free h"
  by (simp add: store_def)

lemma choose_h5_fname_heap:
  "choose_h5_fname env h data_dict compression h5_fname = (h1, Inr fname) \<Longrightarrow>
     h1 = (if h5_fname = None
           then store data_dict (AList.delete ''filename'' (cells h data_dict)) h else h)"
  by (auto simp: choose_h5_fname_def Let_def split: option.splits sum.splits prod.splits)

lemma add_provenance_frame:
  "map_of (cells h c) ''provenance'' \<noteq> Some (Ref a) \<Longrightarrow>
     cells (fst (add_provenance env fname h c)) a = cells h a"
  by (auto simp: add_provenance_def cells_store split: option.splits dictval.splits
      prod.splits sum.splits)

lemma add_provenance_next_free:
  "next_free (fst (add_provenance env fname h c)) = next_free h"
  by (auto simp: add_provenance_def next_free_store split: option.splits dictval.splits
      prod.splits sum.splits)

lemma save_opened_caller:
  assumes "data_dict < next_free h"
    and "map_of (cells h data_dict) ''provenance'' \<noteq> Some (Ref data_dict)"
  shows "cells (fst (save_opened env official h data_dict fname user_descr)) data_dict =
     AList.update ''data_file'' (File_ref fname) (cells h data_dict)"
proof -
  let ?c = "next_free h"
  let ?h1 = "\<lparr>cells = (cells h)(?c := cells h data_dict), next_free = Suc ?c\<rparr>"
  let ?h2 = "store data_dict (AList.update ''data_file'' (File_ref fname) (cells ?h1 data_dict)) ?h1"
  have ne: "data_dict \<noteq> ?c" "data_dict \<noteq> Suc ?c" using assms(1) by auto
  have c2: "cells ?h2 ?c = cells h data_dict" using ne by (simp add: cells_store)
  have d2: "cells ?h2 data_dict = AList.update ''data_file'' (File_ref fname) (cells h data_dict)"
    using ne by (simp add: cells_store)
  obtain h3 r where p: "add_provenance env fname ?h2 ?c = (h3, r)"
    by (cases "add_provenance env fname ?h2 ?c")
  have "cells h3 data_dict = cells ?h2 data_dict"
    using add_provenance_frame [of ?h2 ?c data_dict env fname] assms(2) c2 p by simp
  moreover have "next_free h3 = Suc ?c"
    using add_provenance_next_free [of env fname ?h2 ?c] p by (simp add: next_free_store)
  ultimately show ?thesis
    using p d2 ne
    by (cases r; cases "snd r")
       (auto simp: save_opened_def alloc_def Let_def cells_store split: prod.splits)
qed


lemma save_opened_copy:
  assumes "snd (snd (save_opened env official h data_dict fname user_descr)) = Inr ()"
  shows "map_of (cells (fst (save_opened env official h data_dict fname user_descr)) (next_free h))
           ''identity'' = Some (Ref (Suc (next_free h)))"
proof -
  let ?c = "next_free h"
  let ?h1 = "\<lparr>cells = (cells h)(?c := cells h data_dict), next_free = Suc ?c\<rparr>"
  let ?h2 = "store data_dict (AList.update ''data_file'' (File_ref fname) (cells ?h1 data_dict)) ?h1"
  obtain h3 w r where p: "add_provenance env fname ?h2 ?c = (h3, w, r)"
    by (cases "add_provenance env fname ?h2 ?c") auto
  have n: "next_free h3 = Suc ?c"
    using add_provenance_next_free [of env fname ?h2 ?c] p by (simp add: next_free_store)
  show ?thesis
  proof (cases r)
    case (Inl e)
    with p assms show ?thesis
      by (simp add: save_opened_def alloc_def Let_def)
  next
    case (Inr u)
    with p n show ?thesis
      by (simp add: save_opened_def alloc_def Let_def cells_store update_conv')
  qed
qed

text \<open>
  Claim C10, amended.  Take a call of \<open>save_photon_hdf5\<close> that gets as far as opening
  the output file \<open>fname\<close>, on a dictionary that is allocated and whose \<open>provenance\<close>
  item is not the dictionary itself.  Whatever happens afterwards, the caller's
  dictionary object ends as it was, with \<open>filename\<close> removed when \<open>h5_fname\<close> is
  \<open>None\<close> and with \<open>data_file\<close> set to the open file: no other item of it is added,
  removed or rebound, and in particular \<open>identity\<close> is as before.  When the call
  returns, \<open>identity\<close> is an item of the copy, a new dictionary.  The copy is shallow:
  the theorem speaks of the items of the caller's dictionary, not of the dictionaries
  they refer to.
\<close>

theorem save_changes_caller_dict:
  assumes "tables_filters env compression = None"
    and "choose_h5_fname env h data_dict compression h5_fname = (h1, Inr fname)"
    and "official ''/'' = Some title"
    and "tables_open_file env fname = None"
    and "data_dict < next_free h"
    and "map_of (cells h data_dict) ''provenance'' \<noteq> Some (Ref data_dict)"
  shows "cells (fst (save_photon_hdf5 env official h data_dict compression h5_fname user_descr))
           data_dict =
         AList.update ''data_file'' (File_ref fname)
           (if h5_fname = None then AList.delete ''filename'' (cells h data_dict)
            else cells h data_dict) \<and>
         map_of (cells (fst (save_photon_hdf5 env official h data_dict compression h5_fname
                               user_descr)) data_dict) ''identity'' =
           map_of (cells h data_dict) ''identity'' \<and>
         (snd (snd (save_photon_hdf5 env official h data_dict compression h5_fname user_descr))
            = Inr () \<longrightarrow>
          map_of (cells (fst (save_photon_hdf5 env official h data_dict compression h5_fname
                                user_descr)) (next_free h)) ''identity'' =
            Some (Ref (Suc (next_free h))))"
proof -
  let ?d1 = "if h5_fname = None then AList.delete ''filename'' (cells h data_dict)
             else cells h data_dict"
  have h1: "h1 = (if h5_fname = None then store data_dict (AList.delete ''filename'' (cells h data_dict)) h
                  else h)"
    using assms(2) by (rule choose_h5_fname_heap)
  then have c1: "cells h1 data_dict = ?d1" and n1: "next_free h1 = next_free h"
    by (simp_all add: cells_store next_free_store)
  have p1: "map_of (cells h1 data_dict) ''provenance'' \<noteq> Some (Ref data_dict)"
    using assms(6) by (simp add: c1 delete_conv')
  obtain h2 r where so: "save_opened env official h1 data_dict fname user_descr = (h2, r)"
    by (cases "save_opened env official h1 data_dict fname user_descr")
  have sv: "save_photon_hdf5 env official h data_dict compression h5_fname user_descr =
      (h2, then_run (emit (Print_saving fname)) r)"
    using assms(1-4) so by (simp add: save_photon_hdf5_def)
  have a: "cells h2 data_dict = AList.update ''data_file'' (File_ref fname) ?d1"
    using save_opened_caller [of data_dict h1 env official fname user_descr] assms(5) p1 so
    by (simp add: n1 c1)
  have b: "map_of (cells h2 data_dict) ''identity'' = map_of (cells h data_dict) ''identity''"
    by (simp add: a update_conv' delete_conv')
  have c: "snd r = Inr () \<Longrightarrow>
      map_of (cells h2 (next_free h)) ''identity'' = Some (Ref (Suc (next_free h)))"
    using save_opened_copy [of env official h1 data_dict fname user_descr] so
    by (simp add: n1)
  have "snd (then_run (emit (Print_saving fname)) r) = snd r"
    by (simp add: then_run_def bind_run_def emit_def split: prod.splits)
  with a b c show ?thesis by (simp add: sv)
qed

text \<open>The example store, saved without an output name.\<close>

theorem save_changes_caller_dict_witness:
  "cells (fst (save_photon_hdf5 example_env example_official example_heap 0
                 example_compression None None)) 0 =
     [(''comment'', Val (VStr ''none'')), (''provenance'', Ref 1),
      (''data_file'', File_ref ''run.hdf5'')] \<and>
   map_of (cells (fst (save_photon_hdf5 example_env example_official example_heap 0
                         example_compression None None)) 0) ''identity'' = None \<and>
   map_of (cells (fst (save_photon_hdf5 example_env example_official example_heap 0
                         example_compression None None)) 2) ''identity'' = Some (Ref 3)"
proof -
  have f: "tables_filters example_env example_compression = None"
    by (simp add: example_env_def)
  have c: "choose_h5_fname example_env example_heap 0 example_compression None =
      (store 0 (AList.delete ''filename'' (cells example_heap 0)) example_heap, Inr ''run.hdf5'')"
    by (simp add: choose_h5_fname_def example_env_def example_heap_def example_compression_def
        getitem_def Let_def)
  have t: "example_official ''/'' = Some ''described''"
    by (simp add: example_official_def)
  have o: "tables_open_file example_env ''run.hdf5'' = None"
    by (simp add: example_env_def)
  have n: "(0::nat) < next_free example_heap" "next_free example_heap = 2"
    by (simp_all add: example_heap_def)
  have p: "map_of (cells example_heap 0) ''provenance'' \<noteq> Some (Ref 0)"
    by (simp add: example_heap_def)
  have d: "cells example_heap 0 =
      [(''filename'', Val (VStr ''run.dat'')), (''comment'', Val (VStr ''none'')),
       (''provenance'', Ref 1)]"
    by (simp add: example_heap_def)
  have r: "snd (snd (save_photon_hdf5 example_env example_official example_heap 0
      example_compression None None)) = Inr ()"
    by code_simp
  show ?thesis
    using save_changes_caller_dict [where env = example_env and official = example_official
        and h = example_heap and data_dict = 0 and compression = example_compression
        and h5_fname = None and fname = "''run.hdf5''" and title = "''described''"
        and user_descr = None, OF f c t o n(1) p] r
    by (simp add: d n(2))
qed

text \<open>
  Claim C10 as stated fails twice on the example store.  The provenance dictionary that
  the caller's dictionary refers to is the one the copy refers to: after the call it
  holds \<open>filename_full\<close>, \<open>creation_time\<close> and \<open>modification_time\<close>, fields that are
  written to the file, so they were not added to an internal copy only.  And with a
  compression dictionary without \<open>complib\<close> the call raises \<open>KeyError\<close> after
  \<open>filename\<close> has been removed and before \<open>data_file\<close> is added.
\<close>

theorem save_leaves_nested_dicts_counterexample:
  "cells example_heap 1 =
     [(''filename'', Val (VStr ''run.dat'')), (''software'', Val (VStr ''acquisition''))] \<and>
   map_of (cells (fst (save_photon_hdf5 example_env example_official example_heap 0
                         example_compression None None)) 0) ''provenance'' = Some (Ref 1) \<and>
   cells (fst (save_photon_hdf5 example_env example_official example_heap 0
                 example_compression None None)) 1 =
     [(''filename'', Val (VStr ''run.dat'')), (''software'', Val (VStr ''acquisition'')),
      (''filename_full'', Val (VStr ''/data/run.dat'')),
      (''creation_time'', Val (VStr ''2015-05-01 08:00:00'')),
      (''modification_time'', Val (VStr ''2015-05-01 09:00:00''))] \<and>
   Create_array ''/provenance'' ''creation_time'' (Val (VBytes ''2015-05-01 08:00:00'')) []
     \<in> set (fst (snd (save_photon_hdf5 example_env example_official example_heap 0
                          example_compression None None))) \<and>
   snd (snd (save_photon_hdf5 example_env example_official example_heap 0
               [(''complevel'', Val (VNum 6))] None None)) = Inl (KeyError ''complib'') \<and>
   cells (fst (save_photon_hdf5 example_env example_official example_heap 0
                 [(''complevel'', Val (VNum 6))] None None)) 0 =
     [(''comment'', Val (VStr ''none'')), (''provenance'', Ref 1)]"
  by code_simp


subsection \<open>The titles that are written\<close>


lemma bind_run_returns:
  assumes "bind_run m f = (w, Inr y)"
  obtains w1 x w2 where "m = (w1, Inr x)" "f x = (w2, Inr y)" "w = w1 @ w2"
proof -
  obtain w1 r where m: "m = (w1, r)" by (cases m)
  show ?thesis
  proof (cases r)
    case (Inl e)
    with m assms show ?thesis by simp
  next
    case (Inr x)
    obtain w2 r2 where f: "f x = (w2, r2)" by (cases "f x")
    with m Inr assms have "r2 = Inr y" "w = w1 @ w2" by simp_all
    with m Inr f that show ?thesis by blast
  qed
qed

lemma then_run_returns:
  assumes "then_run m n = (w, Inr y)"
  obtains w1 w2 where "m = (w1, Inr ())" "n = (w2, Inr y)" "w = w1 @ w2"
  using assms unfolding then_run_def by (elim bind_run_returns) auto

lemma save_dict_item:
  assumes "save_photon_hdf5_dict depth h fd grp pl items = (w, Inr ())"
    and "(name, v) \<in> set items"
  shows "\<exists>key ph us. analyze_path name pl = Inr (key, ph, us) \<and>
           written grp name v (case fd key of None \<Rightarrow> [] | Some d \<Rightarrow> d) ph \<in> set w \<and>
           (\<forall>a. v = Ref a \<longrightarrow>
              (\<exists>depth' w'. save_photon_hdf5_dict depth' h fd (join_path grp name)
                    (Some ((case pl of None \<Rightarrow> [] | Some l \<Rightarrow> l) @ [name])) (cells h a) =
                    (w', Inr ()) \<and> set w' \<subseteq> set w))"
  using assms
proof (induction items arbitrary: w)
  case Nil
  then show ?case by simp
next
  case (Cons item items)
  obtain n x where item: "item = (n, x)" by (cases item)
  from Cons.prems(1) obtain w0 r w123 where
    a: "lift (analyze_path n pl) = (w0, Inr r)" and
    body: "(case r of (descr_key, is_phdata, is_user) \<Rightarrow>
       let description = (case fd descr_key of None \<Rightarrow> [] | Some d \<Rightarrow> d) in
       then_run
         (if \<not> is_user \<and> description = [] then emit (Print_missing_description descr_key)
          else ret ())
      (then_run
         (case x of
            Ref a \<Rightarrow>
              then_run (emit (Create_group grp n description))
                (let new_prefix_list =
                       (case pl of None \<Rightarrow> [] | Some pl \<Rightarrow> pl) @ [n] in
                 case depth of
                   0 \<Rightarrow> raise RecursionError
                 | Suc depth' \<Rightarrow>
                     save_photon_hdf5_dict depth' h fd (join_path grp n)
                       (Some new_prefix_list) (cells h a))
          | _ \<Rightarrow> h5_write_array grp n x description is_phdata)
         (save_photon_hdf5_dict depth h fd grp pl items))) = (w123, Inr ())" and
    w: "w = w0 @ w123"
    unfolding item save_photon_hdf5_dict.simps by (elim bind_run_returns)
  obtain key ph us where r: "r = (key, ph, us)" by (cases r)
  from a r have an: "analyze_path n pl = Inr (key, ph, us)" by (simp add: lift_def)
  let ?d = "case fd key of None \<Rightarrow> [] | Some d \<Rightarrow> d"
  from body r obtain w1 w2 w3 where
    b: "(case x of
            Ref a \<Rightarrow>
              then_run (emit (Create_group grp n ?d))
                (let new_prefix_list =
                       (case pl of None \<Rightarrow> [] | Some pl \<Rightarrow> pl) @ [n] in
                 case depth of
                   0 \<Rightarrow> raise RecursionError
                 | Suc depth' \<Rightarrow>
                     save_photon_hdf5_dict depth' h fd (join_path grp n)
                       (Some new_prefix_list) (cells h a))
          | _ \<Rightarrow> h5_write_array grp n x ?d ph) = (w2, Inr ())" and
    rest: "save_photon_hdf5_dict depth h fd grp pl items = (w3, Inr ())" and
    w123: "w123 = w1 @ w2 @ w3"
    by (simp add: Let_def) (elim then_run_returns, blast)
  show ?case
  proof (cases "(name, v) = (n, x)")
    case False
    with Cons.prems(2) item have "(name, v) \<in> set items" by auto
    from Cons.IH [OF rest this] show ?thesis
      unfolding w w123 by (elim exE conjE) (intro exI conjI; force)
  next
    case True
    then have nv: "name = n" "v = x" by simp_all
    have head: "written grp n x ?d ph \<in> set w2 \<and>
        (\<forall>a. x = Ref a \<longrightarrow>
           (\<exists>depth' w'. save_photon_hdf5_dict depth' h fd (join_path grp n)
                 (Some ((case pl of None \<Rightarrow> [] | Some l \<Rightarrow> l) @ [n])) (cells h a) =
                 (w', Inr ()) \<and> set w' \<subseteq> set w2))"
    proof (cases x)
      case (Val y)
      with b show ?thesis by (auto simp: h5_write_array_def emit_def)
    next
      case (File_ref f)
      with b show ?thesis by (auto simp: h5_write_array_def emit_def)
    next
      case (Ref a)
      with b obtain u1 u2 where
        g: "emit (Create_group grp n ?d) = (u1, Inr ())" and
        s: "(let new_prefix_list = (case pl of None \<Rightarrow> [] | Some pl \<Rightarrow> pl) @ [n] in
             case depth of
               0 \<Rightarrow> raise RecursionError
             | Suc depth' \<Rightarrow>
                 save_photon_hdf5_dict depth' h fd (join_path grp n)
                   (Some new_prefix_list) (cells h a)) = (u2, Inr ())" and
        w2: "w2 = u1 @ u2"
        by simp (elim then_run_returns)
      from g have u1: "u1 = [Create_group grp n ?d]" by (simp add: emit_def)
      from s obtain depth' where "depth = Suc depth'"
        "save_photon_hdf5_dict depth' h fd (join_path grp n)
           (Some ((case pl of None \<Rightarrow> [] | Some l \<Rightarrow> l) @ [n])) (cells h a) = (u2, Inr ())"
        by (cases depth) (simp_all add: Let_def raise_def)
      with Ref u1 w2 show ?thesis by auto
    qed
    from head have "written grp n x ?d ph \<in> set (w0 @ w1 @ w2 @ w3)" by simp
    moreover from head have "\<forall>a. x = Ref a \<longrightarrow>
        (\<exists>depth' w'. save_photon_hdf5_dict depth' h fd (join_path grp n)
              (Some ((case pl of None \<Rightarrow> [] | Some l \<Rightarrow> l) @ [n])) (cells h a) =
              (w', Inr ()) \<and> set w' \<subseteq> set (w0 @ w1 @ w2 @ w3))"
      by simp blast
    ultimately show ?thesis
      unfolding nv w w123 using an by blast
  qed
qed


lemma save_dict_nodes:
  assumes "node_at h items grp pl node"
  shows "save_photon_hdf5_dict depth h fd grp pl items = (w, Inr ()) \<Longrightarrow>
     (case node of (g, p, name, v) \<Rightarrow>
        \<exists>key ph us. analyze_path name p = Inr (key, ph, us) \<and>
          written g name v (case fd key of None \<Rightarrow> [] | Some d \<Rightarrow> d) ph \<in> set w)"
  using assms
proof (induction arbitrary: depth w rule: node_at.induct)
  case (here name v items h grp prefix_list)
  from save_dict_item [OF here(2) here(1)] show ?case by auto
next
  case (below name a items h grp prefix_list node)
  from save_dict_item [OF below.prems below.hyps(1)] obtain depth' w' where
    sub: "save_photon_hdf5_dict depth' h fd (join_path grp name)
        (Some ((case prefix_list of None \<Rightarrow> [] | Some l \<Rightarrow> l) @ [name])) (cells h a) =
        (w', Inr ())" and
    incl: "set w' \<subseteq> set w"
    by blast
  from below.IH [OF sub] incl show ?case
    by (cases node) (auto simp del: written.simps)
qed

lemma choose_h5_fname_next_free:
  "next_free (fst (choose_h5_fname env h data_dict compression h5_fname)) = next_free h"
  by (auto simp: choose_h5_fname_def Let_def next_free_store
      split: option.splits sum.splits prod.splits)

lemma save_opened_shape:
  assumes "save_opened env official h data_dict fname user_descr = (h', w, r)"
  shows "(\<exists>e. r = Inl e) \<or>
     (\<exists>w0. (w, r) =
        then_run (w0, Inr ())
          (then_run
             (save_photon_hdf5_dict (recursion_limit env) h'
                (build_fields_descr official user_descr) ''/'' None (cells h' (next_free h)))
             (emit Flush)))"
  using assms
  by (auto simp: save_opened_def alloc_def Let_def cells_store split: prod.splits sum.splits)

lemma save_opened_writes:
  assumes "save_opened env official h data_dict fname user_descr = (h', w, Inr ())"
  shows "\<exists>w'. save_photon_hdf5_dict (recursion_limit env) h'
           (build_fields_descr official user_descr) ''/'' None (cells h' (next_free h)) =
           (w', Inr ()) \<and> set w' \<subseteq> set w"
proof -
  from save_opened_shape [OF assms] obtain w0 where
    run: "then_run (w0, Inr ())
          (then_run
             (save_photon_hdf5_dict (recursion_limit env) h'
                (build_fields_descr official user_descr) ''/'' None (cells h' (next_free h)))
             (emit Flush)) = (w, Inr ())"
    by auto
  from then_run_returns [OF run] obtain u1 u2 where
    inner: "then_run
       (save_photon_hdf5_dict (recursion_limit env) h'
          (build_fields_descr official user_descr) ''/'' None (cells h' (next_free h)))
       (emit Flush) = (u2, Inr ())" and w: "w = u1 @ u2"
    by blast
  from then_run_returns [OF inner] obtain v1 v2 where
    "save_photon_hdf5_dict (recursion_limit env) h'
       (build_fields_descr official user_descr) ''/'' None (cells h' (next_free h)) = (v1, Inr ())"
    and "u2 = v1 @ v2"
    by blast
  with w show ?thesis by auto
qed

lemma save_writes:
  assumes "save_photon_hdf5 env official h data_dict compression h5_fname user_descr =
      (h', w, Inr ())"
  shows "\<exists>w'. save_photon_hdf5_dict (recursion_limit env) h'
           (build_fields_descr official user_descr) ''/'' None (cells h' (next_free h)) =
           (w', Inr ()) \<and> set w' \<subseteq> set w"
proof -
  obtain h1 r1 where c: "choose_h5_fname env h data_dict compression h5_fname = (h1, r1)"
    by (cases "choose_h5_fname env h data_dict compression h5_fname")
  have n1: "next_free h1 = next_free h"
    using choose_h5_fname_next_free [of env h data_dict compression h5_fname] c by simp
  from assms c obtain fname h2 w2 r2 where
    so: "save_opened env official h1 data_dict fname user_descr = (h2, w2, r2)" and
    res: "(h', w, Inr ()) = (h2, then_run (emit (Print_saving fname)) (w2, r2))"
    by (cases "save_opened env official h1 data_dict
                 (case r1 of Inr f \<Rightarrow> f | Inl e \<Rightarrow> [])  user_descr")
       (auto simp: save_photon_hdf5_def raise_def split: option.splits sum.splits prod.splits)
  from res have "h2 = h'" "r2 = Inr ()" "set w2 \<subseteq> set w"
    by (cases r2; auto simp: emit_def)+
  with so save_opened_writes [of env official h1 data_dict fname user_descr h' w2] n1
  show ?thesis by auto
qed


lemma in_set_update:
  "(name, v) \<in> set al \<Longrightarrow> name \<noteq> k \<Longrightarrow> (name, v) \<in> set (AList.update k x al)"
  by (induction al) auto

lemma in_set_delete:
  "(name, v) \<in> set al \<Longrightarrow> name \<noteq> k \<Longrightarrow> (name, v) \<in> set (AList.delete k al)"
  by (induction al) auto

lemma save_opened_copy_items:
  assumes alloc: "data_dict < next_free h"
    and prov: "\<forall>a. map_of (cells h data_dict) ''provenance'' = Some (Ref a) \<longrightarrow> a < next_free h"
    and item: "(name, v) \<in> set (cells h data_dict)" "name \<noteq> ''identity''"
    and ret: "save_opened env official h data_dict fname user_descr = (h', w, Inr ())"
  shows "(name, v) \<in> set (cells h' (next_free h))"
proof -
  let ?c = "next_free h"
  let ?h1 = "\<lparr>cells = (cells h)(?c := cells h data_dict), next_free = Suc ?c\<rparr>"
  let ?h2 = "store data_dict (AList.update ''data_file'' (File_ref fname) (cells ?h1 data_dict)) ?h1"
  have ne: "data_dict \<noteq> ?c" using alloc by simp
  have c2: "cells ?h2 ?c = cells h data_dict" using ne by (simp add: cells_store)
  have "map_of (cells ?h2 ?c) ''provenance'' \<noteq> Some (Ref ?c)"
    using prov unfolding c2 by auto
  then have c3: "cells (fst (add_provenance env fname ?h2 ?c)) ?c = cells h data_dict"
    using add_provenance_frame [of ?h2 ?c ?c env fname] c2 by simp
  have n3: "next_free (fst (add_provenance env fname ?h2 ?c)) = Suc ?c"
    using add_provenance_next_free [of env fname ?h2 ?c] by (simp add: next_free_store)
  obtain h3 w3 r where p: "add_provenance env fname ?h2 ?c = (h3, w3, r)"
    by (cases "add_provenance env fname ?h2 ?c") auto
  from p c3 n3 have h3: "cells h3 ?c = cells h data_dict" "next_free h3 = Suc ?c" by simp_all
  show ?thesis
  proof (cases r)
    case (Inl e)
    with p ret show ?thesis by (simp add: save_opened_def alloc_def Let_def)
  next
    case (Inr u)
    with p ret h3 have "cells h' ?c =
        AList.update ''identity'' (Ref (Suc ?c)) (cells h data_dict)"
      by (auto simp: save_opened_def alloc_def Let_def cells_store)
    with item show ?thesis by (simp add: in_set_update)
  qed
qed

lemma save_copy_items:
  assumes alloc: "data_dict < next_free h"
    and prov: "\<forall>a. map_of (cells h data_dict) ''provenance'' = Some (Ref a) \<longrightarrow> a < next_free h"
    and item: "(name, v) \<in> set (cells h data_dict)" "name \<noteq> ''identity''"
      "h5_fname = None \<longrightarrow> name \<noteq> ''filename''"
    and ret: "save_photon_hdf5 env official h data_dict compression h5_fname user_descr =
      (h', w, Inr ())"
  shows "(name, v) \<in> set (cells h' (next_free h))"
proof -
  obtain h1 r1 where c: "choose_h5_fname env h data_dict compression h5_fname = (h1, r1)"
    by (cases "choose_h5_fname env h data_dict compression h5_fname")
  from ret c obtain fname w2 where
    r1: "r1 = Inr fname" and
    so: "save_opened env official h1 data_dict fname user_descr = (h', w2, Inr ())"
    by (cases "save_opened env official h1 data_dict
                 (case r1 of Inr f \<Rightarrow> f | Inl e \<Rightarrow> []) user_descr")
       (auto simp: save_photon_hdf5_def raise_def emit_def
          split: option.splits sum.splits prod.splits)
  from c r1 have h1: "h1 = (if h5_fname = None
      then store data_dict (AList.delete ''filename'' (cells h data_dict)) h else h)"
    using choose_h5_fname_heap by simp
  then have n1: "next_free h1 = next_free h"
    and c1: "cells h1 data_dict = (if h5_fname = None
      then AList.delete ''filename'' (cells h data_dict) else cells h data_dict)"
    by (simp_all add: cells_store next_free_store)
  have i1: "(name, v) \<in> set (cells h1 data_dict)"
    using item by (simp add: c1 in_set_delete)
  have p1: "\<forall>a. map_of (cells h1 data_dict) ''provenance'' = Some (Ref a) \<longrightarrow> a < next_free h1"
    using prov by (simp add: c1 n1 delete_conv')
  from save_opened_copy_items [OF _ p1 i1 item(2) so] alloc show ?thesis
    by (simp add: n1)
qed

text \<open>
  Claim C9.  Take a save that returns, with the output \<open>w\<close> and the final store
  \<open>h'\<close>.  The dictionary that is written is the copy, at the first free address of
  the initial store.  Every node of it, at any depth, has a meta path, and was written,
  as a group or as an array, with the title that the merged table gives for that meta
  path: the description of the user overlay when the overlay maps the path, whether
  or not the official table maps it too, and the official description (or the empty
  title) when there is no overlay or the overlay does not map the path.  And the items
  of the caller's dictionary, but \<open>identity\<close> and the \<open>filename\<close> that was taken out,
  are items of that copy, when the caller's dictionary and its provenance dictionary
  are allocated.
\<close>

theorem save_writes_overlay_description:
  assumes "save_photon_hdf5 env official h data_dict compression h5_fname user_descr =
      (h', w, Inr ())"
  shows "(node_at h' (cells h' (next_free h)) ''/'' None (grp, prefix_list, name, v) \<longrightarrow>
           (\<exists>meta_path is_phdata is_user.
              analyze_path name prefix_list = Inr (meta_path, is_phdata, is_user) \<and>
              (\<forall>u d'. user_descr = Some u \<and> u meta_path = Some d' \<longrightarrow>
                 written grp name v d' is_phdata \<in> set w) \<and>
              (user_descr = None \<or> (\<exists>u. user_descr = Some u \<and> u meta_path = None) \<longrightarrow>
                 written grp name v (case official meta_path of None \<Rightarrow> [] | Some d \<Rightarrow> d)
                   is_phdata \<in> set w))) \<and>
         (data_dict < next_free h \<and>
          (\<forall>a. map_of (cells h data_dict) ''provenance'' = Some (Ref a) \<longrightarrow> a < next_free h) \<and>
          (item_name, item) \<in> set (cells h data_dict) \<and> item_name \<noteq> ''identity'' \<and>
          (h5_fname = None \<longrightarrow> item_name \<noteq> ''filename'') \<longrightarrow>
            (item_name, item) \<in> set (cells h' (next_free h)))"
proof (intro conjI impI)
  assume n: "node_at h' (cells h' (next_free h)) ''/'' None (grp, prefix_list, name, v)"
  from save_writes [OF assms] obtain w' where
    run: "save_photon_hdf5_dict (recursion_limit env) h'
        (build_fields_descr official user_descr) ''/'' None (cells h' (next_free h)) =
        (w', Inr ())" and incl: "set w' \<subseteq> set w"
    by blast
  from save_dict_nodes [OF n run] obtain key ph us where
    an: "analyze_path name prefix_list = Inr (key, ph, us)" and
    wr: "written grp name v
           (case build_fields_descr official user_descr key of None \<Rightarrow> [] | Some d \<Rightarrow> d) ph
         \<in> set w'"
    by auto
  have over: "written grp name v d' ph \<in> set w"
    if "user_descr = Some u" "u key = Some d'" for u d'
    using wr incl that build_fields_descr_precedence [of u key d' official]
    by (auto simp del: written.simps)
  have keep: "written grp name v (case official key of None \<Rightarrow> [] | Some d \<Rightarrow> d) ph \<in> set w"
    if "user_descr = None \<or> (\<exists>u. user_descr = Some u \<and> u key = None)"
    using wr incl that build_fields_descr_precedence [of _ key _ official]
    by (auto simp del: written.simps)
  from an over keep show "\<exists>meta_path is_phdata is_user.
      analyze_path name prefix_list = Inr (meta_path, is_phdata, is_user) \<and>
      (\<forall>u d'. user_descr = Some u \<and> u meta_path = Some d' \<longrightarrow>
         written grp name v d' is_phdata \<in> set w) \<and>
      (user_descr = None \<or> (\<exists>u. user_descr = Some u \<and> u meta_path = None) \<longrightarrow>
         written grp name v (case official meta_path of None \<Rightarrow> [] | Some d \<Rightarrow> d)
           is_phdata \<in> set w)"
    by blast
next
  assume "data_dict < next_free h \<and>
      (\<forall>a. map_of (cells h data_dict) ''provenance'' = Some (Ref a) \<longrightarrow> a < next_free h) \<and>
      (item_name, item) \<in> set (cells h data_dict) \<and> item_name \<noteq> ''identity'' \<and>
      (h5_fname = None \<longrightarrow> item_name \<noteq> ''filename'')"
  then show "(item_name, item) \<in> set (cells h' (next_free h))"
    using save_copy_items [OF _ _ _ _ _ assms] by blast
qed


text \<open>The example store saved with an overlay for \<open>/comment\<close>, which the official
  table describes too, and for \<open>/provenance/software\<close>; the overlay says nothing of
  \<open>/provenance\<close>, which keeps its official title.\<close>

theorem save_writes_overlay_description_witness:
  "Create_array ''/'' ''comment'' (Val (VBytes ''none'')) ''My own words''
     \<in> set (fst (snd (save_photon_hdf5 example_env
                         (example_official(''/provenance'' \<mapsto> ''Where the data come from''))
                         example_heap 0 example_compression None
                         (Some [''/comment'' \<mapsto> ''My own words'',
                                ''/provenance/software'' \<mapsto> ''Acquisition software'']))))
   \<and>
   Create_array ''/provenance'' ''software'' (Val (VBytes ''acquisition'')) ''Acquisition software''
     \<in> set (fst (snd (save_photon_hdf5 example_env
                         (example_official(''/provenance'' \<mapsto> ''Where the data come from''))
                         example_heap 0 example_compression None
                         (Some [''/comment'' \<mapsto> ''My own words'',
                                ''/provenance/software'' \<mapsto> ''Acquisition software'']))))
   \<and>
   Create_group ''/'' ''provenance'' ''Where the data come from''
     \<in> set (fst (snd (save_photon_hdf5 example_env
                         (example_official(''/provenance'' \<mapsto> ''Where the data come from''))
                         example_heap 0 example_compression None
                         (Some [''/comment'' \<mapsto> ''My own words'',
                                ''/provenance/software'' \<mapsto> ''Acquisition software'']))))"
proof -
  let ?official = "example_official(''/provenance'' \<mapsto> ''Where the data come from'')"
  let ?u = "[''/comment'' \<mapsto> ''My own words'',
             ''/provenance/software'' \<mapsto> ''Acquisition software'']"
  let ?save = "save_photon_hdf5 example_env ?official example_heap 0 example_compression None
      (Some ?u)"
  let ?h = "fst ?save"
  let ?w = "fst (snd ?save)"
  have r: "snd (snd ?save) = Inr ()" by code_simp
  have ret: "?save = (?h, ?w, Inr ())"
    using r by (metis prod.collapse)
  have n: "next_free example_heap = 2" by (simp add: example_heap_def)
  have copy: "(''comment'', Val (VStr ''none'')) \<in> set (cells ?h 2)"
    "(''provenance'', Ref 1) \<in> set (cells ?h 2)"
    by code_simp+
  have prov: "(''software'', Val (VStr ''acquisition'')) \<in> set (cells ?h 1)"
    by code_simp
  have n1: "node_at ?h (cells ?h (next_free example_heap)) ''/'' None
      (''/'', None, ''comment'', Val (VStr ''none''))"
    unfolding n using copy(1) by (rule node_at.here)
  have n2: "node_at ?h (cells ?h (next_free example_heap)) ''/'' None
      (''/'', None, ''provenance'', Ref 1)"
    unfolding n using copy(2) by (rule node_at.here)
  have "node_at ?h (cells ?h 1) (join_path ''/'' ''provenance'')
      (Some ((case None of None \<Rightarrow> [] | Some pl \<Rightarrow> pl) @ [''provenance'']))
      (join_path ''/'' ''provenance'',
       Some ((case None of None \<Rightarrow> [] | Some pl \<Rightarrow> pl) @ [''provenance'']),
       ''software'', Val (VStr ''acquisition''))"
    using prov by (rule node_at.here)
  with copy(2) have "node_at ?h (cells ?h 2) ''/'' None
      (join_path ''/'' ''provenance'',
       Some ((case None of None \<Rightarrow> [] | Some pl \<Rightarrow> pl) @ [''provenance'']),
       ''software'', Val (VStr ''acquisition''))"
    by (rule node_at.below)
  then have n3: "node_at ?h (cells ?h (next_free example_heap)) ''/'' None
      (''/provenance'', Some [''provenance''], ''software'', Val (VStr ''acquisition''))"
    by (simp add: n join_path_def)
  have a1: "analyze_path ''comment'' None = Inr (''/comment'', False, False)"
    and a2: "analyze_path ''provenance'' None = Inr (''/provenance'', False, False)"
    and a3: "analyze_path ''software'' (Some [''provenance'']) =
      Inr (''/provenance/software'', False, False)"
    by (simp_all add: analyze_path_def full_path_of_def startswith_def)
  have o: "?official ''/provenance'' = Some ''Where the data come from''" by simp
  have u: "?u ''/comment'' = Some ''My own words''"
    "?u ''/provenance/software'' = Some ''Acquisition software''"
    "?u ''/provenance'' = None"
    by simp_all
  from save_writes_overlay_description [OF ret, where grp = "''/''" and prefix_list = None
      and name = "''comment''" and v = "Val (VStr ''none'')", THEN conjunct1, THEN mp, OF n1]
  have c1: "Create_array ''/'' ''comment'' (Val (VBytes ''none'')) ''My own words'' \<in> set ?w"
    using a1 u(1) by auto
  from save_writes_overlay_description [OF ret, where grp = "''/provenance''"
      and prefix_list = "Some [''provenance'']"
      and name = "''software''" and v = "Val (VStr ''acquisition'')",
      THEN conjunct1, THEN mp, OF n3]
  have c2: "Create_array ''/provenance'' ''software'' (Val (VBytes ''acquisition''))
      ''Acquisition software'' \<in> set ?w"
    using a3 u(2) by auto
  from save_writes_overlay_description [OF ret, where grp = "''/''" and prefix_list = None
      and name = "''provenance''" and v = "Ref 1", THEN conjunct1, THEN mp, OF n2]
  have c3: "Create_group ''/'' ''provenance'' ''Where the data come from'' \<in> set ?w"
    using a2 u(3) o by auto
  from c1 c2 c3 show ?thesis by blast
qed

end
